theory Spec2Isabelle
  imports Main "HOL-Library.Sublist"
begin

section \<open>Planting calendar: derivation of calendar events\<close>

text \<open>
  A shallow embedding of \<^verbatim>\<open>generateEvents\<close> of
  \<^verbatim>\<open>src/components/calendar/PlantingCalendar.tsx\<close> together with the parts of the
  ECMAScript library it calls (strings, \<^verbatim>\<open>parseInt\<close>, \<^verbatim>\<open>Date\<close>).
\<close>

subsection \<open>The records of the component\<close>

record Garden =
  g_id :: string
  g_name :: string
  g_location :: string
  g_growZone :: string

text \<open>
  \<^verbatim>\<open>daysToMaturity\<close> is declared \<^verbatim>\<open>number\<close>, but the rows come from the backend and
  the code tests the field for truthiness; \<open>None\<close> is a missing (undefined or null) value.
\<close>

record Plant =
  p_id :: string
  p_name :: string
  p_plantType :: string
  p_daysToMaturity :: "int option"

text \<open>
  The window labels are tested for truthiness before use; \<open>None\<close> is a missing label.
\<close>

record PlantingSchedule =
  s_id :: string
  s_plantId :: string
  s_growZone :: string
  s_sowIndoorStart :: "string option"
  s_sowIndoorEnd :: "string option"
  s_transplantStart :: "string option"
  s_transplantEnd :: "string option"
  s_sowOutdoorStart :: "string option"
  s_sowOutdoorEnd :: "string option"
  s_harvestStart :: "string option"
  s_harvestEnd :: "string option"

record GardenPlant =
  gp_id :: string
  gp_gardenId :: string
  gp_plantId :: string
  gp_plantedDate :: string
  gp_status :: string

datatype EventType = SowIndoor | SowOutdoor | Transplant | Harvest | Planted

record CalendarEvent =
  e_id :: string
  e_title :: string
  e_type :: EventType
  e_date :: string
  e_plant :: string
  e_garden :: "string option"
  e_description :: "string option"

text \<open>The string of an event type, as it is spliced into an event id.\<close>

fun type_string :: "EventType \<Rightarrow> string" where
  "type_string SowIndoor = ''sow-indoor''"
| "type_string SowOutdoor = ''sow-outdoor''"
| "type_string Transplant = ''transplant''"
| "type_string Harvest = ''harvest''"
| "type_string Planted = ''planted''"

definition MONTHS :: "string list" where
  "MONTHS = [''January'', ''February'', ''March'', ''April'', ''May'', ''June'',
             ''July'', ''August'', ''September'', ''October'', ''November'', ''December'']"

subsection \<open>Strings\<close>

text \<open>
  Characters are bytes here. \<^verbatim>\<open>toLowerCase\<close> is modelled on ASCII: the letters A to Z
  are mapped to a to z and every other byte is kept.
\<close>

definition toLowerCase_char :: "char \<Rightarrow> char" where
  "toLowerCase_char c =
     (let n = (of_char c :: int) in if 65 \<le> n \<and> n \<le> 90 then char_of (n + 32) else c)"

definition toLowerCase :: "string \<Rightarrow> string" where
  "toLowerCase s = map toLowerCase_char s"

text \<open>\<^verbatim>\<open>s.startsWith(p)\<close>.\<close>

definition startsWith :: "string \<Rightarrow> string \<Rightarrow> bool" where
  "startsWith s p = (take (length p) s = p)"

text \<open>\<^verbatim>\<open>s.split(sep)\<close> for a one-character separator; the result is never empty.\<close>

fun split :: "char \<Rightarrow> string \<Rightarrow> string list" where
  "split sep [] = [[]]"
| "split sep (c # cs) =
     (if c = sep then [] # split sep cs
      else (case split sep cs of
              [] \<Rightarrow> [[c]]
            | w # ws \<Rightarrow> (c # w) # ws))"

text \<open>\<^verbatim>\<open>xs.findIndex(P)\<close>: the index of the first element satisfying \<open>P\<close>, or \<open>-1\<close>.\<close>

fun findIndex :: "('a \<Rightarrow> bool) \<Rightarrow> 'a list \<Rightarrow> int" where
  "findIndex P [] = - 1"
| "findIndex P (x # xs) =
     (if P x then 0
      else (let i = findIndex P xs in if i = - 1 then - 1 else i + 1))"

subsection \<open>parseInt\<close>

text \<open>
  \<^verbatim>\<open>parseInt(s)\<close> without a radix: leading white space is dropped, a sign is read, a
  prefix \<^verbatim>\<open>0x\<close> or \<^verbatim>\<open>0X\<close> switches to radix 16, and the longest prefix of digits is the
  value. \<open>None\<close> is NaN (no digit). The argument \<open>None\<close> is \<^verbatim>\<open>undefined\<close>, whose
  string \<^verbatim>\<open>"undefined"\<close> has no digit either.
\<close>

definition isWhiteSpace :: "char \<Rightarrow> bool" where
  "isWhiteSpace c = ((of_char c :: int) \<in> {9, 10, 11, 12, 13, 32})"

definition digitValue :: "int \<Rightarrow> char \<Rightarrow> int option" where
  "digitValue radix c =
     (let n = (of_char c :: int);
          v = (if 48 \<le> n \<and> n \<le> 57 then Some (n - 48)
               else if 97 \<le> n \<and> n \<le> 102 then Some (n - 87)
               else if 65 \<le> n \<and> n \<le> 70 then Some (n - 55)
               else None)
      in case v of None \<Rightarrow> None | Some d \<Rightarrow> if d < radix then Some d else None)"

text \<open>The digits are folded from the left; the flag records whether a digit was seen.\<close>

fun readDigits :: "int \<Rightarrow> string \<Rightarrow> bool \<Rightarrow> int \<Rightarrow> int option" where
  "readDigits radix [] seen acc = (if seen then Some acc else None)"
| "readDigits radix (c # cs) seen acc =
     (case digitValue radix c of
        None \<Rightarrow> (if seen then Some acc else None)
      | Some d \<Rightarrow> readDigits radix cs True (acc * radix + d))"

definition parseInt :: "string option \<Rightarrow> int option" where
  "parseInt input =
     (case input of
        None \<Rightarrow> None
      | Some inputString \<Rightarrow>
          (let S = dropWhile isWhiteSpace inputString;
               sign = (if S \<noteq> [] \<and> hd S = CHR ''-'' then - 1 else (1::int));
               S1 = (if S \<noteq> [] \<and> (hd S = CHR ''+'' \<or> hd S = CHR ''-'') then tl S else S);
               hex = (take 2 S1 = ''0x'' \<or> take 2 S1 = ''0X'');
               S2 = (if hex then drop 2 S1 else S1);
               R = (if hex then 16 else 10)
           in map_option (\<lambda>mathInt. sign * mathInt) (readDigits R S2 False 0)))"

subsection \<open>The month of a window label\<close>

text \<open>
  The first lines of \<^verbatim>\<open>parseDate\<close>: the label is split at spaces, the first piece is the
  month token, the second (if any) the day; the month index is the position of the first
  month name whose lower-case form starts with the lower-case token.
\<close>

definition monthDay :: "string \<Rightarrow> string \<times> string option" where
  "monthDay dateStr =
     (case split CHR '' '' dateStr of
        [] \<Rightarrow> ([], None)
      | [month] \<Rightarrow> (month, None)
      | month # day # _ \<Rightarrow> (month, Some day))"

definition monthIndexOf :: "string \<Rightarrow> int" where
  "monthIndexOf month =
     findIndex (\<lambda>m. startsWith (toLowerCase m) (toLowerCase month)) MONTHS"

subsection \<open>Time values and the calendar of ECMAScript\<close>

text \<open>
  A time value is a number of milliseconds since 1970-01-01T00:00:00Z, or NaN (\<open>None\<close>)
  for an invalid date. The day and year arithmetic is that of the language definition.
\<close>

type_synonym time_value = "int option"

datatype error = RangeError

definition msPerDay :: int where
  "msPerDay = 86400000"

definition Day :: "int \<Rightarrow> int" where
  "Day t = t div msPerDay"

definition TimeWithinDay :: "int \<Rightarrow> int" where
  "TimeWithinDay t = t mod msPerDay"

definition DaysInYear :: "int \<Rightarrow> int" where
  "DaysInYear y =
     (if y mod 4 \<noteq> 0 then 365
      else if y mod 100 \<noteq> 0 then 366
      else if y mod 400 \<noteq> 0 then 365
      else 366)"

definition DayFromYear :: "int \<Rightarrow> int" where
  "DayFromYear y =
     365 * (y - 1970) + (y - 1969) div 4 - (y - 1901) div 100 + (y - 1601) div 400"

text \<open>
  The year of a day number: the largest \<open>y\<close> with \<open>DayFromYear y \<le> d\<close>, found from an
  estimate that is off by at most one (theorem \<open>YearFromDay_is_largest_year\<close> below).
\<close>

definition YearFromDay :: "int \<Rightarrow> int" where
  "YearFromDay d =
     (let y = 1970 + (400 * d) div 146097
      in if DayFromYear (y + 1) \<le> d then y + 1
         else if DayFromYear y \<le> d then y
         else y - 1)"

definition YearFromTime :: "int \<Rightarrow> int" where
  "YearFromTime t = YearFromDay (Day t)"

definition leapDays :: "int \<Rightarrow> int" where
  "leapDays y = (if DaysInYear y = 366 then 1 else 0)"

definition InLeapYear :: "int \<Rightarrow> int" where
  "InLeapYear t = leapDays (YearFromTime t)"

definition DayWithinYear :: "int \<Rightarrow> int" where
  "DayWithinYear t = Day t - DayFromYear (YearFromTime t)"

text \<open>The day within the year on which month \<open>m\<close> (0 to 11) starts.\<close>

definition monthStart :: "int \<Rightarrow> int \<Rightarrow> int" where
  "monthStart leap m =
     (if m = 0 then 0
      else if m = 1 then 31
      else if m = 2 then 59 + leap
      else if m = 3 then 90 + leap
      else if m = 4 then 120 + leap
      else if m = 5 then 151 + leap
      else if m = 6 then 181 + leap
      else if m = 7 then 212 + leap
      else if m = 8 then 243 + leap
      else if m = 9 then 273 + leap
      else if m = 10 then 304 + leap
      else 334 + leap)"

definition MonthFromTime :: "int \<Rightarrow> int" where
  "MonthFromTime t =
     (let d = DayWithinYear t; l = InLeapYear t
      in if d < 31 then 0
         else if d < 59 + l then 1
         else if d < 90 + l then 2
         else if d < 120 + l then 3
         else if d < 151 + l then 4
         else if d < 181 + l then 5
         else if d < 212 + l then 6
         else if d < 243 + l then 7
         else if d < 273 + l then 8
         else if d < 304 + l then 9
         else if d < 334 + l then 10
         else 11)"

definition DateFromTime :: "int \<Rightarrow> int" where
  "DateFromTime t = DayWithinYear t - monthStart (InLeapYear t) (MonthFromTime t) + 1"

text \<open>
  \<open>MakeDay\<close>: the day number of the first of month \<open>month mod 12\<close> in year
  \<open>year + month div 12\<close>, plus \<open>date - 1\<close>. The integers of the model are unbounded, so
  the search for that first day always succeeds; \<open>TimeClip\<close> bounds the final result.
\<close>

definition MakeDay :: "int \<Rightarrow> int \<Rightarrow> int \<Rightarrow> int" where
  "MakeDay year month date =
     (let ym = year + month div 12; mn = month mod 12
      in DayFromYear ym + monthStart (leapDays ym) mn + date - 1)"

text \<open>The number of days of month \<open>m\<close> (0 to 11) of a year, from the month starts.\<close>

definition DaysInMonth :: "int \<Rightarrow> int \<Rightarrow> int" where
  "DaysInMonth year m =
     (if m = 11 then 31
      else monthStart (leapDays year) (m + 1) - monthStart (leapDays year) m)"

definition MakeDate :: "int \<Rightarrow> int \<Rightarrow> int" where
  "MakeDate day time = day * msPerDay + time"

definition TimeClip :: "int \<Rightarrow> time_value" where
  "TimeClip t = (if \<bar>t\<bar> > 8640000000000000 then None else Some t)"

text \<open>
  The host environment: \<^verbatim>\<open>Date.parse\<close> (its fallback for strings outside the ISO format
  is left to the implementation) and the offset of local time from UTC in milliseconds,
  at a UTC time (flag \<open>True\<close>) or at a local time (flag \<open>False\<close>).
\<close>

record env =
  Date_parse :: "string \<Rightarrow> int option"
  LocalTZA :: "int \<Rightarrow> bool \<Rightarrow> int"

definition LocalTime :: "env \<Rightarrow> int \<Rightarrow> int" where
  "LocalTime env t = t + LocalTZA env t True"

definition UTC :: "env \<Rightarrow> int \<Rightarrow> int" where
  "UTC env t = t - LocalTZA env t False"

text \<open>\<^verbatim>\<open>new Date(s)\<close> for a string, and \<^verbatim>\<open>new Date(year, month, date)\<close>.\<close>

definition Date_of_string :: "env \<Rightarrow> string \<Rightarrow> time_value" where
  "Date_of_string env s = (case Date_parse env s of None \<Rightarrow> None | Some t \<Rightarrow> TimeClip t)"

definition Date_of_fields :: "env \<Rightarrow> int \<Rightarrow> int \<Rightarrow> int option \<Rightarrow> time_value" where
  "Date_of_fields env year month date =
     (case date of
        None \<Rightarrow> None
      | Some dt \<Rightarrow>
          (let yr = (if 0 \<le> year \<and> year \<le> 99 then 1900 + year else year)
           in TimeClip (UTC env (MakeDate (MakeDay yr month dt) 0))))"

definition getDate :: "env \<Rightarrow> time_value \<Rightarrow> int option" where
  "getDate env tv = map_option (\<lambda>t. DateFromTime (LocalTime env t)) tv"

definition setDate :: "env \<Rightarrow> time_value \<Rightarrow> int option \<Rightarrow> time_value" where
  "setDate env tv date =
     (case tv of
        None \<Rightarrow> None
      | Some t0 \<Rightarrow>
          (case date of
             None \<Rightarrow> None
           | Some dt \<Rightarrow>
               (let t = LocalTime env t0;
                    newDate = MakeDate (MakeDay (YearFromTime t) (MonthFromTime t) dt)
                                (TimeWithinDay t)
                in TimeClip (UTC env newDate))))"

text \<open>
  \<^verbatim>\<open>toISOString\<close> raises a RangeError on an invalid date. \<open>pad k n\<close> writes the last
  \<open>k\<close> decimal digits of \<open>n\<close>, which is never negative where it is called.
\<close>

fun pad :: "nat \<Rightarrow> int \<Rightarrow> string" where
  "pad 0 n = []"
| "pad (Suc k) n = pad k (n div 10) @ [char_of (48 + n mod 10)]"

definition yearString :: "int \<Rightarrow> string" where
  "yearString y =
     (if 0 \<le> y \<and> y \<le> 9999 then pad 4 y
      else (if y < 0 then ''-'' else ''+'') @ pad 6 \<bar>y\<bar>)"

definition isoString :: "int \<Rightarrow> string" where
  "isoString t =
     yearString (YearFromTime t) @ ''-'' @ pad 2 (MonthFromTime t + 1) @ ''-''
       @ pad 2 (DateFromTime t) @ ''T''
       @ pad 2 (TimeWithinDay t div 3600000) @ '':''
       @ pad 2 (TimeWithinDay t div 60000 mod 60) @ '':''
       @ pad 2 (TimeWithinDay t div 1000 mod 60) @ ''.''
       @ pad 3 (TimeWithinDay t mod 1000) @ ''Z''"

definition toISOString :: "time_value \<Rightarrow> error + string" where
  "toISOString tv = (case tv of None \<Rightarrow> Inl RangeError | Some t \<Rightarrow> Inr (isoString t))"

text \<open>
  An environment for examples: UTC as the local zone, and a \<^verbatim>\<open>Date.parse\<close> that reads
  the date-only form \<^verbatim>\<open>YYYY-MM-DD\<close> and the form \<^verbatim>\<open>YYYY-MM-DDTHH:mm:ss.sssZ\<close> that
  \<^verbatim>\<open>toISOString\<close> writes, and nothing else.
\<close>

definition decimal :: "string \<Rightarrow> int option" where
  "decimal s =
     (if s \<noteq> [] \<and> list_all (\<lambda>c. digitValue 10 c \<noteq> None) s then readDigits 10 s False 0
      else None)"

definition iso_day :: "string \<Rightarrow> int option" where
  "iso_day s =
     (if length s = 10 \<and> s ! 4 = CHR ''-'' \<and> s ! 7 = CHR ''-'' then
        (case decimal (take 4 s) of
           None \<Rightarrow> None
         | Some y \<Rightarrow>
             (case decimal (take 2 (drop 5 s)) of
                None \<Rightarrow> None
              | Some m \<Rightarrow>
                  (case decimal (drop 8 s) of
                     None \<Rightarrow> None
                   | Some d \<Rightarrow>
                       if 1 \<le> m \<and> m \<le> 12 \<and> 1 \<le> d \<and> d \<le> 31
                       then Some (MakeDay y (m - 1) d) else None)))
      else None)"

definition iso_time :: "string \<Rightarrow> int option" where
  "iso_time s =
     (if length s = 13 \<and> s ! 2 = CHR '':'' \<and> s ! 5 = CHR '':'' \<and> s ! 8 = CHR ''.''
         \<and> s ! 12 = CHR ''Z'' then
        (case decimal (take 2 s) of
           None \<Rightarrow> None
         | Some h \<Rightarrow>
             (case decimal (take 2 (drop 3 s)) of
                None \<Rightarrow> None
              | Some mi \<Rightarrow>
                  (case decimal (take 2 (drop 6 s)) of
                     None \<Rightarrow> None
                   | Some sec \<Rightarrow>
                       (case decimal (take 3 (drop 9 s)) of
                          None \<Rightarrow> None
                        | Some ms \<Rightarrow>
                            if h \<le> 23 \<and> mi \<le> 59 \<and> sec \<le> 59
                            then Some (h * 3600000 + mi * 60000 + sec * 1000 + ms)
                            else None))))
      else None)"

definition iso_parse :: "string \<Rightarrow> int option" where
  "iso_parse s =
     (if length s = 10 then map_option (\<lambda>d. MakeDate d 0) (iso_day s)
      else if length s = 24 \<and> s ! 10 = CHR ''T'' then
        (case iso_day (take 10 s) of
           None \<Rightarrow> None
         | Some d \<Rightarrow> map_option (MakeDate d) (iso_time (drop 11 s)))
      else None)"

definition utc_env :: env where
  "utc_env = \<lparr> Date_parse = iso_parse, LocalTZA = (\<lambda>t u. 0) \<rparr>"

subsection \<open>generateEvents\<close>

text \<open>
  \<^verbatim>\<open>parseDate\<close> returns null (\<open>None\<close>) when no month matches, and otherwise a
  \<^verbatim>\<open>Date\<close> object, which is invalid when the day is not a number.
\<close>

definition parseDate :: "env \<Rightarrow> int \<Rightarrow> string \<Rightarrow> time_value option" where
  "parseDate env currentYear dateStr =
     (case monthDay dateStr of
        (month, day) \<Rightarrow>
          (let monthIndex = monthIndexOf month
           in if monthIndex = - 1 then None
              else Some (Date_of_fields env currentYear monthIndex (parseInt day))))"

text \<open>The four object literals pushed onto \<^verbatim>\<open>newEvents\<close>.\<close>

definition plantedEvent :: "GardenPlant \<Rightarrow> Plant \<Rightarrow> Garden \<Rightarrow> CalendarEvent" where
  "plantedEvent gardenPlant plant garden =
     \<lparr> e_id = ''planted-'' @ gp_id gardenPlant,
       e_title = ''Planted '' @ p_name plant,
       e_type = Planted,
       e_date = gp_plantedDate gardenPlant,
       e_plant = p_name plant,
       e_garden = Some (g_name garden),
       e_description = Some (p_name plant @ '' was planted in '' @ g_name garden) \<rparr>"

definition harvestEvent :: "GardenPlant \<Rightarrow> Plant \<Rightarrow> Garden \<Rightarrow> string \<Rightarrow> CalendarEvent" where
  "harvestEvent gardenPlant plant garden harvestIso =
     \<lparr> e_id = ''harvest-'' @ gp_id gardenPlant,
       e_title = ''Harvest '' @ p_name plant,
       e_type = Harvest,
       e_date = harvestIso,
       e_plant = p_name plant,
       e_garden = Some (g_name garden),
       e_description =
         Some (''Expected harvest date for '' @ p_name plant @ '' in '' @ g_name garden) \<rparr>"

definition startEvent ::
  "EventType \<Rightarrow> string \<Rightarrow> PlantingSchedule \<Rightarrow> Plant \<Rightarrow> Garden \<Rightarrow> string \<Rightarrow> CalendarEvent" where
  "startEvent type title schedule plant garden startIso =
     \<lparr> e_id = type_string type @ ''-'' @ s_id schedule @ ''-start'',
       e_title = title @ '' '' @ p_name plant @ '' (Start)'',
       e_type = type,
       e_date = startIso,
       e_plant = p_name plant,
       e_garden = Some (g_name garden),
       e_description =
         Some (''Optimal time to '' @ toLowerCase title @ '' '' @ p_name plant @ '' in ''
               @ g_name garden) \<rparr>"

definition endEvent ::
  "EventType \<Rightarrow> string \<Rightarrow> PlantingSchedule \<Rightarrow> Plant \<Rightarrow> Garden \<Rightarrow> string \<Rightarrow> CalendarEvent" where
  "endEvent type title schedule plant garden endIso =
     \<lparr> e_id = type_string type @ ''-'' @ s_id schedule @ ''-end'',
       e_title = title @ '' '' @ p_name plant @ '' (End)'',
       e_type = type,
       e_date = endIso,
       e_plant = p_name plant,
       e_garden = Some (g_name garden),
       e_description =
         Some (''Last optimal time to '' @ toLowerCase title @ '' '' @ p_name plant @ '' in ''
               @ g_name garden) \<rparr>"

text \<open>
  \<^verbatim>\<open>addScheduleEvent\<close> as a transformer of the array \<^verbatim>\<open>newEvents\<close>. Its body runs
  inside \<^verbatim>\<open>try\<close>: a RangeError of \<^verbatim>\<open>toISOString\<close> is caught and logged, and what was
  pushed before it stays. The date of an object literal is evaluated before the push.
\<close>

definition addScheduleEvent ::
  "env \<Rightarrow> int \<Rightarrow> Plant \<Rightarrow> Garden \<Rightarrow> PlantingSchedule \<Rightarrow> string option \<Rightarrow> string option
     \<Rightarrow> EventType \<Rightarrow> string \<Rightarrow> CalendarEvent list \<Rightarrow> CalendarEvent list" where
  "addScheduleEvent env currentYear plant garden schedule startDate endDate type title newEvents =
     (case startDate of
        None \<Rightarrow> newEvents
      | Some sd \<Rightarrow>
          (case endDate of
             None \<Rightarrow> newEvents
           | Some ed \<Rightarrow>
               if sd = [] \<or> ed = [] then newEvents
               else
                 (case parseDate env currentYear sd of
                    None \<Rightarrow> newEvents
                  | Some start \<Rightarrow>
                      (case parseDate env currentYear ed of
                         None \<Rightarrow> newEvents
                       | Some endD \<Rightarrow>
                           (case toISOString start of
                              Inl err \<Rightarrow> newEvents
                            | Inr startIso \<Rightarrow>
                                (let newEvents1 =
                                       newEvents
                                       @ [startEvent type title schedule plant garden startIso]
                                 in case toISOString endD of
                                      Inl err \<Rightarrow> newEvents1
                                    | Inr endIso \<Rightarrow>
                                        newEvents1
                                        @ [endEvent type title schedule plant garden
                                             endIso]))))))"

text \<open>\<^verbatim>\<open>forEach\<close> with a callback that updates the array, and with one that may raise.\<close>

fun forEach :: "('a \<Rightarrow> 's \<Rightarrow> 's) \<Rightarrow> 'a list \<Rightarrow> 's \<Rightarrow> 's" where
  "forEach f [] s = s"
| "forEach f (x # xs) s = forEach f xs (f x s)"

fun forEach_raising :: "('a \<Rightarrow> 's \<Rightarrow> error + 's) \<Rightarrow> 'a list \<Rightarrow> 's \<Rightarrow> error + 's" where
  "forEach_raising f [] s = Inr s"
| "forEach_raising f (x # xs) s =
     (case f x s of Inl err \<Rightarrow> Inl err | Inr s' \<Rightarrow> forEach_raising f xs s')"

text \<open>The callback of \<^verbatim>\<open>gardenPlants.forEach\<close>; nothing catches its RangeError.\<close>

definition forEach_gardenPlant ::
  "env \<Rightarrow> Garden list \<Rightarrow> Plant list \<Rightarrow> string \<Rightarrow> GardenPlant \<Rightarrow> CalendarEvent list
     \<Rightarrow> error + CalendarEvent list" where
  "forEach_gardenPlant env gardens plants selectedGarden gardenPlant newEvents =
     (case find (\<lambda>g. g_id g = gp_gardenId gardenPlant) gardens of
        None \<Rightarrow> Inr newEvents
      | Some garden \<Rightarrow>
          (case find (\<lambda>p. p_id p = gp_plantId gardenPlant) plants of
             None \<Rightarrow> Inr newEvents
           | Some plant \<Rightarrow>
               if selectedGarden = ''all'' \<or> selectedGarden = g_id garden then
                 (let newEvents1 = newEvents @ [plantedEvent gardenPlant plant garden]
                  in case p_daysToMaturity plant of
                       None \<Rightarrow> Inr newEvents1
                     | Some n \<Rightarrow>
                         if n = 0 then Inr newEvents1
                         else
                           (let plantedDate = Date_of_string env (gp_plantedDate gardenPlant);
                                harvestDate =
                                  setDate env plantedDate
                                    (map_option (\<lambda>d. d + n) (getDate env plantedDate))
                            in case toISOString harvestDate of
                                 Inl err \<Rightarrow> Inl err
                               | Inr harvestIso \<Rightarrow>
                                   Inr (newEvents1
                                        @ [harvestEvent gardenPlant plant garden harvestIso])))
               else Inr newEvents))"

text \<open>The callbacks of \<^verbatim>\<open>schedules.forEach\<close> and of \<^verbatim>\<open>gardens.forEach\<close>.\<close>

definition forEach_schedule ::
  "env \<Rightarrow> int \<Rightarrow> Plant list \<Rightarrow> Garden \<Rightarrow> PlantingSchedule \<Rightarrow> CalendarEvent list
     \<Rightarrow> CalendarEvent list" where
  "forEach_schedule env currentYear plants garden schedule newEvents =
     (if s_growZone schedule = g_growZone garden then
        (case find (\<lambda>p. p_id p = s_plantId schedule) plants of
           None \<Rightarrow> newEvents
         | Some plant \<Rightarrow>
             (let newEvents1 =
                    addScheduleEvent env currentYear plant garden schedule
                      (s_sowIndoorStart schedule) (s_sowIndoorEnd schedule)
                      SowIndoor ''Start Seeds Indoor'' newEvents;
                  newEvents2 =
                    addScheduleEvent env currentYear plant garden schedule
                      (s_sowOutdoorStart schedule) (s_sowOutdoorEnd schedule)
                      SowOutdoor ''Direct Sow'' newEvents1
              in addScheduleEvent env currentYear plant garden schedule
                   (s_transplantStart schedule) (s_transplantEnd schedule)
                   Transplant ''Transplant'' newEvents2))
      else newEvents)"


definition forEach_garden ::
  "env \<Rightarrow> int \<Rightarrow> Plant list \<Rightarrow> PlantingSchedule list \<Rightarrow> string \<Rightarrow> Garden
     \<Rightarrow> CalendarEvent list \<Rightarrow> CalendarEvent list" where
  "forEach_garden env currentYear plants schedules selectedGarden garden newEvents =
     (if selectedGarden = ''all'' \<or> selectedGarden = g_id garden then
        forEach (forEach_schedule env currentYear plants garden) schedules newEvents
      else newEvents)"

text \<open>
  \<^verbatim>\<open>generateEvents\<close>: the result is the array handed to \<^verbatim>\<open>setEvents\<close>, or the
  exception that leaves the function. \<open>currentYear\<close> is \<^verbatim>\<open>currentDate.getFullYear()\<close>.
\<close>

definition generateEvents ::
  "env \<Rightarrow> Garden list \<Rightarrow> Plant list \<Rightarrow> PlantingSchedule list \<Rightarrow> GardenPlant list \<Rightarrow> string
     \<Rightarrow> int \<Rightarrow> error + CalendarEvent list" where
  "generateEvents env gardens plants schedules gardenPlants selectedGarden currentYear =
     (case forEach_raising (forEach_gardenPlant env gardens plants selectedGarden)
             gardenPlants [] of
        Inl err \<Rightarrow> Inl err
      | Inr newEvents \<Rightarrow>
          Inr (forEach (forEach_garden env currentYear plants schedules selectedGarden)
                 gardens newEvents))"

subsection \<open>Example rows\<close>

definition ex_garden :: Garden where
  "ex_garden = \<lparr> g_id = ''g1'', g_name = ''Backyard'', g_location = ''Home'', g_growZone = ''6'' \<rparr>"

definition ex_garden_front :: Garden where
  "ex_garden_front =
     \<lparr> g_id = ''g2'', g_name = ''Front Bed'', g_location = ''Home'', g_growZone = ''6'' \<rparr>"

definition ex_garden_twin :: Garden where
  "ex_garden_twin =
     \<lparr> g_id = ''g2'', g_name = ''Backyard'', g_location = ''Cabin'', g_growZone = ''6'' \<rparr>"

definition ex_plant :: Plant where
  "ex_plant =
     \<lparr> p_id = ''p1'', p_name = ''Tomato'', p_plantType = ''vegetable'',
       p_daysToMaturity = Some 60 \<rparr>"

definition ex_schedule :: PlantingSchedule where
  "ex_schedule =
     \<lparr> s_id = ''s1'', s_plantId = ''p1'', s_growZone = ''6'',
       s_sowIndoorStart = Some ''Mar 15'', s_sowIndoorEnd = Some ''Apr 1'',
       s_transplantStart = None, s_transplantEnd = None,
       s_sowOutdoorStart = None, s_sowOutdoorEnd = None,
       s_harvestStart = Some ''Jul 1'', s_harvestEnd = Some ''Sep 30'' \<rparr>"

definition ex_gardenPlant :: GardenPlant where
  "ex_gardenPlant =
     \<lparr> gp_id = ''gp1'', gp_gardenId = ''g1'', gp_plantId = ''p1'',
       gp_plantedDate = ''2024-03-01'', gp_status = ''planned'' \<rparr>"

text \<open>The six ids that the window events of a schedule can carry.\<close>

definition windowIds :: "PlantingSchedule \<Rightarrow> string set" where
  "windowIds s =
     (\<lambda>(ty, r). type_string ty @ ''-'' @ s_id s @ r)
       ` ({SowIndoor, SowOutdoor, Transplant} \<times> {''-start'', ''-end''})"

text \<open>The events of a result; a raised exception delivers none.\<close>

definition events_of :: "error + CalendarEvent list \<Rightarrow> CalendarEvent set" where
  "events_of r = (case r of Inl err \<Rightarrow> {} | Inr evs \<Rightarrow> set evs)"

section \<open>Properties\<close>

subsection \<open>Library lemmas\<close>





lemma find_SomeD: "find P xs = Some x \<Longrightarrow> x \<in> set xs \<and> P x"
  by (induction xs) (auto split: if_splits)

lemma find_None_image: "find (\<lambda>x. f x = k) xs = None \<longleftrightarrow> k \<notin> f ` set xs"
  by (auto simp: find_None_iff)

subsection \<open>The calendar\<close>

text \<open>
  The year of a day is the largest year that starts on or before it, as the language
  definition has it, and the day built by \<open>MakeDay\<close> for a day of a month is the day
  whose year, month and date are the ones asked for.
\<close>

lemma div_bounds:
  fixes z k :: int
  assumes "0 < k"
  shows "k * (z div k) \<le> z \<and> z < k * (z div k) + k"
  using assms mult_div_mod_eq [of k z] pos_mod_bound [of k z] pos_mod_sign [of k z]
  by linarith

lemma low_arith:
  fixes y d a b c q :: int
  assumes "4 * a \<le> y - 1 - 1969" and "y - 1 - 1901 < 100 * b + 100"
      and "400 * c \<le> y - 1 - 1601" and "146097 * q \<le> 400 * d" and "y = 1970 + q"
  shows "365 * (y - 1 - 1970) + a - b + c \<le> d"
  using assms by (simp add: algebra_simps)

lemma high_arith:
  fixes y d a b c q :: int
  assumes "y + 2 - 1969 < 4 * a + 4" and "100 * b \<le> y + 2 - 1901"
      and "y + 2 - 1601 < 400 * c + 400" and "400 * d < 146097 * q + 146097" and "y = 1970 + q"
  shows "d < 365 * (y + 2 - 1970) + a - b + c"
  using assms by (simp add: algebra_simps)

lemma estimate_low:
  assumes "y = 1970 + (400 * d) div 146097"
  shows "DayFromYear (y - 1) \<le> d"
proof -
  have a: "4 * ((y - 1 - 1969) div 4) \<le> y - 1 - 1969"
    using div_bounds [of 4 "y - 1 - 1969"] by simp
  have b: "y - 1 - 1901 < 100 * ((y - 1 - 1901) div 100) + 100"
    using div_bounds [of 100 "y - 1 - 1901"] by simp
  have c: "400 * ((y - 1 - 1601) div 400) \<le> y - 1 - 1601"
    using div_bounds [of 400 "y - 1 - 1601"] by simp
  have e: "146097 * ((400 * d) div 146097) \<le> 400 * d"
    using div_bounds [of 146097 "400 * d"] by simp
  show ?thesis
    unfolding DayFromYear_def using a b c e assms by (rule low_arith)
qed

lemma estimate_high:
  assumes "y = 1970 + (400 * d) div 146097"
  shows "d < DayFromYear (y + 2)"
proof -
  have a: "y + 2 - 1969 < 4 * ((y + 2 - 1969) div 4) + 4"
    using div_bounds [of 4 "y + 2 - 1969"] by simp
  have b: "100 * ((y + 2 - 1901) div 100) \<le> y + 2 - 1901"
    using div_bounds [of 100 "y + 2 - 1901"] by simp
  have c: "y + 2 - 1601 < 400 * ((y + 2 - 1601) div 400) + 400"
    using div_bounds [of 400 "y + 2 - 1601"] by simp
  have e: "400 * d < 146097 * ((400 * d) div 146097) + 146097"
    using div_bounds [of 146097 "400 * d"] by simp
  show ?thesis
    unfolding DayFromYear_def using a b c e assms by (rule high_arith)
qed

lemma YearFromDay_bounds:
  "DayFromYear (YearFromDay d) \<le> d \<and> d < DayFromYear (YearFromDay d + 1)"
  using estimate_low [of "1970 + (400 * d) div 146097" d]
        estimate_high [of "1970 + (400 * d) div 146097" d]
  by (auto simp: YearFromDay_def Let_def)

lemma div_succ:
  fixes z k :: int
  assumes "0 < k"
  shows "(z + 1) div k = z div k + (if (z + 1) mod k = 0 then 1 else 0)"
proof -
  let ?q = "z div k" and ?r = "z mod k"
  have z: "z = k * ?q + ?r" by simp
  have r: "0 \<le> ?r" "?r < k" using assms by simp_all
  show ?thesis
  proof (cases "?r + 1 < k")
    case True
    have eq: "z + 1 = k * ?q + (?r + 1)" using z by linarith
    have "(z + 1) div k = ?q"
      using eq r True by (intro int_div_pos_eq [of "z + 1" k ?q "?r + 1"]) simp_all
    moreover have "(z + 1) mod k = ?r + 1"
      using eq r True by (intro int_mod_pos_eq [of "z + 1" k ?q "?r + 1"]) simp_all
    ultimately show ?thesis using r by simp
  next
    case False
    then have rk: "?r + 1 = k" using r by linarith
    have "k * ?q + ?r + 1 = k * ?q + k" using rk by linarith
    then have "z + 1 = k * ?q + k" by simp
    then have eq: "z + 1 = k * (?q + 1) + 0"
      by (simp add: algebra_simps)
    have "(z + 1) div k = ?q + 1"
      using eq assms by (intro int_div_pos_eq [of "z + 1" k "?q + 1" 0]) simp_all
    moreover have "(z + 1) mod k = 0"
      using eq assms by (intro int_mod_pos_eq [of "z + 1" k "?q + 1" 0]) simp_all
    ultimately show ?thesis by simp
  qed
qed

lemma leap4: "(y + 1 - 1969) div 4 = (y - 1969) div 4 + (if y mod 4 = 0 then 1 else 0)"
  for y :: int
proof -
  have "(y - 1969 + 1) mod 4 = (y + 4 * (- 492)) mod 4" by simp
  also have "\<dots> = y mod 4" by (rule mod_mult_self2)
  finally have m: "(y - 1969 + 1) mod 4 = y mod 4" .
  have "(y + 1 - 1969) div 4 = (y - 1969 + 1) div 4" by simp
  also have "\<dots> = (y - 1969) div 4 + (if (y - 1969 + 1) mod 4 = 0 then 1 else 0)"
    by (rule div_succ) simp
  finally show ?thesis unfolding m .
qed

lemma leap100: "(y + 1 - 1901) div 100 = (y - 1901) div 100 + (if y mod 100 = 0 then 1 else 0)"
  for y :: int
proof -
  have "(y - 1901 + 1) mod 100 = (y + 100 * (- 19)) mod 100" by simp
  also have "\<dots> = y mod 100" by (rule mod_mult_self2)
  finally have m: "(y - 1901 + 1) mod 100 = y mod 100" .
  have "(y + 1 - 1901) div 100 = (y - 1901 + 1) div 100" by simp
  also have "\<dots> = (y - 1901) div 100 + (if (y - 1901 + 1) mod 100 = 0 then 1 else 0)"
    by (rule div_succ) simp
  finally show ?thesis unfolding m .
qed

lemma leap400: "(y + 1 - 1601) div 400 = (y - 1601) div 400 + (if y mod 400 = 0 then 1 else 0)"
  for y :: int
proof -
  have "(y - 1601 + 1) mod 400 = (y + 400 * (- 4)) mod 400" by simp
  also have "\<dots> = y mod 400" by (rule mod_mult_self2)
  finally have m: "(y - 1601 + 1) mod 400 = y mod 400" .
  have "(y + 1 - 1601) div 400 = (y - 1601 + 1) div 400" by simp
  also have "\<dots> = (y - 1601) div 400 + (if (y - 1601 + 1) mod 400 = 0 then 1 else 0)"
    by (rule div_succ) simp
  finally show ?thesis unfolding m .
qed

lemma mod_chain:
  "(y mod 400 = 0 \<longrightarrow> y mod 100 = 0) \<and> (y mod 100 = 0 \<longrightarrow> y mod 4 = 0)" for y :: int
proof -
  have "y mod 400 mod 100 = y mod 100" by (rule mod_mod_cancel) simp
  moreover have "y mod 100 mod 4 = y mod 4" by (rule mod_mod_cancel) simp
  ultimately show ?thesis by (metis mod_0)
qed

lemma DayFromYear_step: "DayFromYear (y + 1) = DayFromYear y + DaysInYear y"
  unfolding DayFromYear_def leap4 leap100 leap400
  using mod_chain [of y] by (simp add: DaysInYear_def)

lemma DayFromYear_mono: "y \<le> y' \<Longrightarrow> DayFromYear y + 365 * (y' - y) \<le> DayFromYear y'"
proof (induction y' rule: int_ge_induct)
  case base
  show ?case by simp
next
  case (step i)
  have "DaysInYear i \<ge> 365" by (simp add: DaysInYear_def)
  then show ?case using step DayFromYear_step [of i] by (simp add: algebra_simps)
qed

lemma YearFromDay_unique:
  assumes "DayFromYear y \<le> d" and "d < DayFromYear (y + 1)"
  shows "YearFromDay d = y"
proof -
  let ?z = "YearFromDay d"
  have z: "DayFromYear ?z \<le> d" "d < DayFromYear (?z + 1)"
    using YearFromDay_bounds [of d] by simp_all
  have "\<not> ?z < y"
  proof
    assume "?z < y"
    then have "DayFromYear (?z + 1) \<le> DayFromYear y"
      using DayFromYear_mono [of "?z + 1" y] by simp
    then show False using z assms by linarith
  qed
  moreover have "\<not> y < ?z"
  proof
    assume "y < ?z"
    then have "DayFromYear (y + 1) \<le> DayFromYear ?z"
      using DayFromYear_mono [of "y + 1" ?z] by simp
    then show False using z assms by linarith
  qed
  ultimately show ?thesis by simp
qed

text \<open>
  \<open>YearFromDay\<close> returns the largest year that starts on or before the day, which
  is how the language definition specifies the year of a time value.
\<close>

theorem YearFromDay_is_largest_year:
  "DayFromYear (YearFromDay d) \<le> d \<and> (\<forall>y. DayFromYear y \<le> d \<longrightarrow> y \<le> YearFromDay d)"
proof (intro conjI allI impI)
  show "DayFromYear (YearFromDay d) \<le> d"
    using YearFromDay_bounds [of d] by simp
next
  fix y assume y: "DayFromYear y \<le> d"
  show "y \<le> YearFromDay d"
  proof (rule ccontr)
    assume "\<not> y \<le> YearFromDay d"
    then have "DayFromYear (YearFromDay d + 1) \<le> DayFromYear y"
      using DayFromYear_mono [of "YearFromDay d + 1" y] by simp
    then show False
      using y YearFromDay_bounds [of d] by linarith
  qed
qed

text \<open>
  At day 20148 (the first of March 2025): the year 2025 starts on or before it, and so
  the result is at least 2025; it is 2025.
\<close>

theorem YearFromDay_is_largest_year_witness:
  "DayFromYear 2025 \<le> 20148 \<and> 2025 \<le> YearFromDay 20148 \<and> YearFromDay 20148 = 2025"
proof -
  have a: "DayFromYear 2025 \<le> 20148"
    by code_simp
  have b: "2025 \<le> YearFromDay 20148"
    using YearFromDay_is_largest_year [of 20148] a by blast
  have c: "YearFromDay 20148 = 2025"
    by code_simp
  show ?thesis
    using a b c by blast
qed

text \<open>
  For a month index from 0 to 11 and a day of that month, the times of the day built by
  \<open>MakeDay\<close> have the year, the month and the date asked for: \<open>MakeDay\<close> is the
  search of the language definition for a day with these fields.
\<close>

lemma Day_MakeDate:
  assumes "0 \<le> tod" "tod < msPerDay"
  shows "Day (MakeDate d tod) = d \<and> TimeWithinDay (MakeDate d tod) = tod"
proof -
  have p: "0 < msPerDay" by (simp add: msPerDay_def)
  have e: "MakeDate d tod = msPerDay * d + tod" by (simp add: MakeDate_def)
  have "(msPerDay * d + tod) div msPerDay = d"
    using assms p by (intro int_div_pos_eq [of _ msPerDay d tod]) simp_all
  moreover have "(msPerDay * d + tod) mod msPerDay = tod"
    using assms p by (intro int_mod_pos_eq [of _ msPerDay d tod]) simp_all
  ultimately show ?thesis unfolding e Day_def TimeWithinDay_def by simp
qed

theorem MakeDay_calendar_date:
  assumes m: "0 \<le> m" "m < 12"
      and d: "1 \<le> d" "d \<le> DaysInMonth y m"
      and tod: "0 \<le> tod" "tod < msPerDay"
  shows "YearFromTime (MakeDate (MakeDay y m d) tod) = y
       \<and> MonthFromTime (MakeDate (MakeDay y m d) tod) = m
       \<and> DateFromTime (MakeDate (MakeDay y m d) tod) = d"
proof -
  let ?t = "MakeDate (MakeDay y m d) tod"
  let ?l = "leapDays y"
  have md: "m div 12 = 0" "m mod 12 = m" using m by simp_all
  have day: "Day ?t = DayFromYear y + (monthStart ?l m + d - 1)"
    using Day_MakeDate [OF tod, of "MakeDay y m d"]
    by (simp add: MakeDay_def Let_def md)
  have l: "?l = 0 \<or> ?l = 1" by (simp add: leapDays_def)
  have diy: "DaysInYear y = 365 + ?l"
    by (simp add: leapDays_def DaysInYear_def)
  have cases: "m = 0 \<or> m = 1 \<or> m = 2 \<or> m = 3 \<or> m = 4 \<or> m = 5 \<or> m = 6 \<or> m = 7
      \<or> m = 8 \<or> m = 9 \<or> m = 10 \<or> m = 11"
    using m by arith
  have ms: "0 \<le> monthStart ?l m + d - 1 \<and> monthStart ?l m + d - 1 < DaysInYear y"
    unfolding diy using cases l d
    by (elim disjE) (simp_all add: monthStart_def DaysInMonth_def)
  have yr: "YearFromTime ?t = y"
    unfolding YearFromTime_def day
    using ms DayFromYear_step [of y] by (intro YearFromDay_unique) simp_all
  have dwy: "DayWithinYear ?t = monthStart ?l m + d - 1"
    by (simp add: DayWithinYear_def yr day)
  have ily: "InLeapYear ?t = ?l"
    by (simp add: InLeapYear_def yr)
  have mo: "MonthFromTime ?t = m"
    unfolding MonthFromTime_def dwy ily Let_def
    using cases l d
    by (elim disjE) (simp_all add: monthStart_def DaysInMonth_def)
  have "DateFromTime ?t = d"
    unfolding DateFromTime_def dwy ily mo by simp
  then show ?thesis using yr mo by simp
qed

text \<open>At 15 March 2025: day 20162 of the epoch.\<close>

theorem MakeDay_calendar_date_witness:
  "MakeDay 2025 2 15 = 20162
   \<and> DaysInMonth 2025 2 = 31
   \<and> YearFromTime (MakeDate (MakeDay 2025 2 15) 0) = 2025
   \<and> MonthFromTime (MakeDate (MakeDay 2025 2 15) 0) = 2
   \<and> DateFromTime (MakeDate (MakeDay 2025 2 15) 0) = 15"
proof -
  have m: "(0::int) \<le> 2" "(2::int) < 12"
    by simp_all
  have dim: "DaysInMonth 2025 2 = 31"
    by code_simp
  have d: "(1::int) \<le> 15" "15 \<le> DaysInMonth 2025 2"
    unfolding dim by simp_all
  have tod: "(0::int) \<le> 0" "0 < msPerDay"
    by (simp_all add: msPerDay_def)
  have v: "MakeDay 2025 2 15 = 20162"
    by code_simp
  show ?thesis
    using v dim MakeDay_calendar_date [OF m d tod] by simp
qed







subsection \<open>The shape of the result\<close>

text \<open>
  Every callback appends to \<^verbatim>\<open>newEvents\<close>; so the result is the events of the
  plantings, row by row, followed by the events of the gardens, schedule by schedule, and
  the function raises exactly when a planting does.
\<close>

lemma addScheduleEvent_acc:
  "addScheduleEvent env y plant garden schedule a b ty ti acc
   = acc @ addScheduleEvent env y plant garden schedule a b ty ti []"
  by (simp add: addScheduleEvent_def Let_def split: option.splits sum.splits)

lemma forEach_schedule_eq:
  "forEach_schedule env y plants garden schedule acc
   = acc @ (if s_growZone schedule = g_growZone garden then
              (case find (\<lambda>p. p_id p = s_plantId schedule) plants of
                 None \<Rightarrow> []
               | Some plant \<Rightarrow>
                   addScheduleEvent env y plant garden schedule
                     (s_sowIndoorStart schedule) (s_sowIndoorEnd schedule)
                     SowIndoor ''Start Seeds Indoor'' []
                   @ addScheduleEvent env y plant garden schedule
                       (s_sowOutdoorStart schedule) (s_sowOutdoorEnd schedule)
                       SowOutdoor ''Direct Sow'' []
                   @ addScheduleEvent env y plant garden schedule
                       (s_transplantStart schedule) (s_transplantEnd schedule)
                       Transplant ''Transplant'' [])
            else [])"
proof (cases "s_growZone schedule = g_growZone garden")
  case False
  then show ?thesis by (simp add: forEach_schedule_def)
next
  case zone: True
  show ?thesis
  proof (cases "find (\<lambda>p. p_id p = s_plantId schedule) plants")
    case None
    then show ?thesis using zone by (simp add: forEach_schedule_def)
  next
    case (Some plant)
    let ?add = "addScheduleEvent env y plant garden schedule"
    let ?A1 = "?add (s_sowIndoorStart schedule) (s_sowIndoorEnd schedule)
                 SowIndoor ''Start Seeds Indoor''"
    let ?A2 = "?add (s_sowOutdoorStart schedule) (s_sowOutdoorEnd schedule)
                 SowOutdoor ''Direct Sow''"
    let ?A3 = "?add (s_transplantStart schedule) (s_transplantEnd schedule)
                 Transplant ''Transplant''"
    have "forEach_schedule env y plants garden schedule acc = ?A3 (?A2 (?A1 acc))"
      using zone Some by (simp add: forEach_schedule_def)
    also have "\<dots> = ?A2 (?A1 acc) @ ?A3 []" by (rule addScheduleEvent_acc)
    also have "?A2 (?A1 acc) = ?A1 acc @ ?A2 []" by (rule addScheduleEvent_acc)
    also have "?A1 acc = acc @ ?A1 []" by (rule addScheduleEvent_acc)
    finally show ?thesis using zone Some by simp
  qed
qed

lemma forEach_schedule_acc:
  "forEach_schedule env y plants garden schedule acc
   = acc @ forEach_schedule env y plants garden schedule []"
  using forEach_schedule_eq [of env y plants garden schedule acc]
        forEach_schedule_eq [of env y plants garden schedule "[]"]
  by simp

lemma forEach_concat:
  assumes "\<And>x a. f x a = a @ f x []"
  shows "forEach f xs acc = acc @ concat (map (\<lambda>x. f x []) xs)"
proof (induction xs arbitrary: acc)
  case Nil
  show ?case by simp
next
  case (Cons x xs)
  have "forEach f (x # xs) acc = forEach f xs (f x acc)" by simp
  also have "\<dots> = f x acc @ concat (map (\<lambda>x. f x []) xs)" by (rule Cons.IH)
  also have "f x acc = acc @ f x []" by (rule assms)
  finally show ?case by simp
qed

lemma forEach_garden_acc:
  "forEach_garden env y plants schedules sel garden acc
   = acc @ forEach_garden env y plants schedules sel garden []"
  unfolding forEach_garden_def
  using forEach_concat [of "forEach_schedule env y plants garden", OF forEach_schedule_acc]
  by simp

lemma forEach_garden_nil:
  "forEach_garden env y plants schedules sel garden []
   = (if sel = ''all'' \<or> sel = g_id garden
      then concat (map (\<lambda>s. forEach_schedule env y plants garden s []) schedules) else [])"
  unfolding forEach_garden_def
  using forEach_concat [of "forEach_schedule env y plants garden", OF forEach_schedule_acc]
  by simp

lemma forEach_gardenPlant_acc:
  "forEach_gardenPlant env gardens plants sel gp acc
   = (case forEach_gardenPlant env gardens plants sel gp [] of
        Inl err \<Rightarrow> Inl err | Inr evs \<Rightarrow> Inr (acc @ evs))"
  by (simp add: forEach_gardenPlant_def Let_def split: option.splits sum.splits)

lemma forEach_raising_concat:
  assumes "\<And>x a. f x a = (case f x [] of Inl err \<Rightarrow> Inl err | Inr evs \<Rightarrow> Inr (a @ evs))"
  shows "forEach_raising f xs acc
         = (if \<exists>x \<in> set xs. isl (f x []) then Inl RangeError
            else Inr (acc @ concat (map (\<lambda>x. projr (f x [])) xs)))"
proof (induction xs arbitrary: acc)
  case Nil
  show ?case by simp
next
  case (Cons x xs)
  show ?case
  proof (cases "f x []")
    case (Inl err)
    then have "f x acc = Inl err" using assms [of x acc] by simp
    moreover have "err = RangeError" by (cases err) simp
    ultimately show ?thesis using Inl by simp
  next
    case (Inr evs)
    then have "f x acc = Inr (acc @ evs)" using assms [of x acc] by simp
    then show ?thesis using Inr Cons.IH [of "acc @ evs"] by simp
  qed
qed

lemma generateEvents_eq:
  "generateEvents env gardens plants schedules gardenPlants sel y
   = (if \<exists>gp \<in> set gardenPlants. isl (forEach_gardenPlant env gardens plants sel gp [])
      then Inl RangeError
      else Inr (concat (map (\<lambda>gp. projr (forEach_gardenPlant env gardens plants sel gp []))
                         gardenPlants)
                @ concat (map (\<lambda>g. forEach_garden env y plants schedules sel g []) gardens)))"
proof -
  have a: "forEach_raising (forEach_gardenPlant env gardens plants sel) gardenPlants []
      = (if \<exists>gp \<in> set gardenPlants. isl (forEach_gardenPlant env gardens plants sel gp [])
         then Inl RangeError
         else Inr ([] @ concat (map (\<lambda>gp. projr (forEach_gardenPlant env gardens plants sel gp []))
                         gardenPlants)))"
    by (rule forEach_raising_concat) (rule forEach_gardenPlant_acc)
  have b: "forEach (forEach_garden env y plants schedules sel) gardens acc
      = acc @ concat (map (\<lambda>g. forEach_garden env y plants schedules sel g []) gardens)" for acc
    by (rule forEach_concat) (rule forEach_garden_acc)
  show ?thesis
    unfolding generateEvents_def a by (simp add: b)
qed

lemma generateEvents_mem:
  assumes "generateEvents env gardens plants schedules gardenPlants sel y = Inr evs"
  shows "set evs = (\<Union>gp \<in> set gardenPlants. set (projr (forEach_gardenPlant env gardens plants sel gp [])))
                   \<union> (\<Union>g \<in> set gardens. set (forEach_garden env y plants schedules sel g []))"
    and "\<forall>gp \<in> set gardenPlants. \<not> isl (forEach_gardenPlant env gardens plants sel gp [])"
  using assms unfolding generateEvents_eq by (auto split: if_splits)

lemma addScheduleEvent_nil_cases:
  "addScheduleEvent env y plant garden schedule a b ty ti [] = []
   \<or> (\<exists>i. addScheduleEvent env y plant garden schedule a b ty ti []
            = [startEvent ty ti schedule plant garden i])
   \<or> (\<exists>i j. addScheduleEvent env y plant garden schedule a b ty ti []
            = [startEvent ty ti schedule plant garden i, endEvent ty ti schedule plant garden j])"
  by (auto simp: addScheduleEvent_def Let_def split: option.split sum.split)

lemma addScheduleEvent_shape:
  assumes "e \<in> set (addScheduleEvent env y plant garden schedule a b ty ti [])"
  shows "e_type e = ty \<and> e_garden e = Some (g_name garden)"
proof -
  have "e_type (startEvent ty ti schedule plant garden i) = ty
        \<and> e_garden (startEvent ty ti schedule plant garden i) = Some (g_name garden)
        \<and> e_type (endEvent ty ti schedule plant garden i) = ty
        \<and> e_garden (endEvent ty ti schedule plant garden i) = Some (g_name garden)" for i
    by (simp add: startEvent_def endEvent_def)
  then show ?thesis
    using assms addScheduleEvent_nil_cases [of env y plant garden schedule a b ty ti]
    by auto
qed

lemma forEach_schedule_shape:
  assumes "e \<in> set (forEach_schedule env y plants garden schedule [])"
  shows "(e_type e = SowIndoor \<or> e_type e = SowOutdoor \<or> e_type e = Transplant)
         \<and> e_garden e = Some (g_name garden)"
proof (cases "find (\<lambda>p. p_id p = s_plantId schedule) plants")
  case None
  then have "forEach_schedule env y plants garden schedule [] = []"
    by (simp add: forEach_schedule_eq [of env y plants garden schedule "[]"])
  then show ?thesis using assms by simp
next
  case (Some plant)
  let ?add = "addScheduleEvent env y plant garden schedule"
  let ?A1 = "?add (s_sowIndoorStart schedule) (s_sowIndoorEnd schedule)
               SowIndoor ''Start Seeds Indoor'' []"
  let ?A2 = "?add (s_sowOutdoorStart schedule) (s_sowOutdoorEnd schedule)
               SowOutdoor ''Direct Sow'' []"
  let ?A3 = "?add (s_transplantStart schedule) (s_transplantEnd schedule)
               Transplant ''Transplant'' []"
  have "forEach_schedule env y plants garden schedule [] = []
        \<or> forEach_schedule env y plants garden schedule [] = ?A1 @ ?A2 @ ?A3"
    using Some by (simp add: forEach_schedule_eq [of env y plants garden schedule "[]"])
  then have "e \<in> set ?A1 \<or> e \<in> set ?A2 \<or> e \<in> set ?A3"
    using assms by auto
  then show ?thesis
    using addScheduleEvent_shape [of e env y plant garden schedule] by blast
qed




lemma forEach_garden_shape:
  assumes "e \<in> set (forEach_garden env y plants schedules sel garden [])"
  shows "(e_type e = SowIndoor \<or> e_type e = SowOutdoor \<or> e_type e = Transplant)
         \<and> e_garden e = Some (g_name garden)
         \<and> (sel = ''all'' \<or> sel = g_id garden)"
proof -
  from assms have sel: "sel = ''all'' \<or> sel = g_id garden"
    by (auto simp: forEach_garden_nil split: if_splits)
  with assms obtain s where "e \<in> set (forEach_schedule env y plants garden s [])"
    by (auto simp: forEach_garden_nil split: if_splits)
  from forEach_schedule_shape [OF this] sel show ?thesis by blast
qed

lemma forEach_gardenPlant_shape:
  assumes "forEach_gardenPlant env gardens plants sel gp [] = Inr evs" and "e \<in> set evs"
  shows "\<exists>garden plant. find (\<lambda>g. g_id g = gp_gardenId gp) gardens = Some garden
           \<and> find (\<lambda>p. p_id p = gp_plantId gp) plants = Some plant
           \<and> (sel = ''all'' \<or> sel = g_id garden)
           \<and> (e = plantedEvent gp plant garden \<or> (\<exists>iso. e = harvestEvent gp plant garden iso))"
  using assms
  by (auto simp: forEach_gardenPlant_def Let_def split: option.splits sum.splits if_splits)

lemma harvest_event_has_planting:
  assumes gen: "generateEvents env gardens plants schedules gardenPlants sel y = Inr evs"
      and e: "e \<in> set evs" and h: "e_type e = Harvest"
  shows "\<exists>gp \<in> set gardenPlants. e_id e = ''harvest-'' @ gp_id gp"
proof -
  from generateEvents_mem [OF gen] e
  consider (row) gp where "gp \<in> set gardenPlants"
      "\<not> isl (forEach_gardenPlant env gardens plants sel gp [])"
      "e \<in> set (projr (forEach_gardenPlant env gardens plants sel gp []))"
    | (win) g where "g \<in> set gardens" "e \<in> set (forEach_garden env y plants schedules sel g [])"
    by auto
  then show ?thesis
  proof cases
    case row
    then obtain rs where rs: "forEach_gardenPlant env gardens plants sel gp [] = Inr rs" "e \<in> set rs"
      by (cases "forEach_gardenPlant env gardens plants sel gp []") auto
    from forEach_gardenPlant_shape [OF rs] obtain garden plant where
      "e = plantedEvent gp plant garden \<or> (\<exists>iso. e = harvestEvent gp plant garden iso)"
      by blast
    then have "e_id e = ''harvest-'' @ gp_id gp"
      using h by (auto simp: plantedEvent_def harvestEvent_def)
    then show ?thesis using row(1) by blast
  next
    case win
    then show ?thesis using forEach_garden_shape [OF win(2)] h by auto
  qed
qed

lemma addScheduleEvent_harvest_fields:
  "addScheduleEvent env y plant garden (schedule\<lparr>s_harvestStart := hs, s_harvestEnd := he\<rparr>) a b ty ti acc
   = addScheduleEvent env y plant garden schedule a b ty ti acc"
  by (simp add: addScheduleEvent_def startEvent_def endEvent_def Let_def
        split: option.splits sum.splits)

lemma forEach_schedule_harvest_fields:
  "forEach_schedule env y plants garden (schedule\<lparr>s_harvestStart := hs, s_harvestEnd := he\<rparr>) acc
   = forEach_schedule env y plants garden schedule acc"
  by (simp add: forEach_schedule_def addScheduleEvent_harvest_fields Let_def
        split: option.split)

lemma forEach_garden_harvest_fields:
  "forEach_garden env y plants (map (\<lambda>s. s\<lparr>s_harvestStart := hs s, s_harvestEnd := he s\<rparr>) schedules) sel g []
   = forEach_garden env y plants schedules sel g []"
  by (simp add: forEach_garden_nil forEach_schedule_harvest_fields comp_def)

lemma generateEvents_harvest_fields:
  "generateEvents env gardens plants (map (\<lambda>s. s\<lparr>s_harvestStart := hs s, s_harvestEnd := he s\<rparr>) schedules) gardenPlants sel y
   = generateEvents env gardens plants schedules gardenPlants sel y"
  by (simp add: generateEvents_eq forEach_garden_harvest_fields)

lemma orphan_row:
  assumes "gp_gardenId gp \<notin> g_id ` set gardens \<or> gp_plantId gp \<notin> p_id ` set plants"
  shows "forEach_gardenPlant env gardens plants sel gp acc = Inr acc"
proof -
  from assms have "find (\<lambda>g. g_id g = gp_gardenId gp) gardens = None
      \<or> find (\<lambda>p. p_id p = gp_plantId gp) plants = None"
    by (simp add: find_None_image)
  then show ?thesis
    by (auto simp: forEach_gardenPlant_def split: option.split)
qed

lemma orphan_schedule:
  assumes "s_plantId s \<notin> p_id ` set plants"
  shows "forEach_schedule env y plants garden s acc = acc"
proof -
  from assms have "find (\<lambda>p. p_id p = s_plantId s) plants = None"
    by (simp add: find_None_image)
  then show ?thesis by (simp add: forEach_schedule_def)
qed

lemma row_sel_cases:
  "forEach_gardenPlant env gardens plants sel gp [] = forEach_gardenPlant env gardens plants ''all'' gp []
   \<or> forEach_gardenPlant env gardens plants sel gp [] = Inr []"
  by (auto simp: forEach_gardenPlant_def split: option.split)

lemma row_sel_own:
  assumes "find (\<lambda>g. g_id g = gp_gardenId gp) gardens = Some garden"
  shows "forEach_gardenPlant env gardens plants (g_id garden) gp []
         = forEach_gardenPlant env gardens plants ''all'' gp []"
  using assms by (auto simp: forEach_gardenPlant_def split: option.split)

lemma garden_sel_cases:
  "forEach_garden env y plants schedules sel g []
   = (if sel = ''all'' \<or> sel = g_id g then forEach_garden env y plants schedules ''all'' g [] else [])"
  by (simp add: forEach_garden_nil)

lemma garden_sel_mem:
  assumes "e \<in> set (forEach_garden env y plants schedules sel g [])"
  shows "e \<in> set (forEach_garden env y plants schedules ''all'' g [])"
  using assms by (simp add: forEach_garden_nil split: if_splits)

lemma garden_sel_own:
  "forEach_garden env y plants schedules (g_id g) g []
   = forEach_garden env y plants schedules ''all'' g []"
  by (simp add: forEach_garden_nil)

lemma row_sel_mem:
  assumes "e \<in> set (projr (forEach_gardenPlant env gardens plants sel gp []))"
  shows "e \<in> set (projr (forEach_gardenPlant env gardens plants ''all'' gp []))"
  using assms row_sel_cases [of env gardens plants sel gp] by auto

lemma row_garden_name:
  assumes "forEach_gardenPlant env gardens plants sel gp [] = Inr evs" and "e \<in> set evs"
      and "sel \<noteq> ''all''"
  shows "\<exists>a \<in> set gardens. g_id a = sel \<and> e_garden e = Some (g_name a)"
proof -
  from forEach_gardenPlant_shape [OF assms(1,2)] obtain garden plant where
    f: "find (\<lambda>g. g_id g = gp_gardenId gp) gardens = Some garden"
    and s: "sel = ''all'' \<or> sel = g_id garden"
    and e: "e = plantedEvent gp plant garden \<or> (\<exists>iso. e = harvestEvent gp plant garden iso)"
    by blast
  from f have "garden \<in> set gardens" by (simp add: find_SomeD)
  moreover from s assms(3) have "g_id garden = sel" by simp
  moreover from e have "e_garden e = Some (g_name garden)"
    by (auto simp: plantedEvent_def harvestEvent_def)
  ultimately show ?thesis by blast
qed

lemma result_garden_name:
  assumes "e \<in> events_of (generateEvents env gardens plants schedules gardenPlants sel y)"
      and "sel \<noteq> ''all''"
  shows "\<exists>a \<in> set gardens. g_id a = sel \<and> e_garden e = Some (g_name a)"
proof -
  from assms(1) obtain evs where
    gen: "generateEvents env gardens plants schedules gardenPlants sel y = Inr evs"
    and e: "e \<in> set evs"
    by (auto simp: events_of_def split: sum.splits)
  from generateEvents_mem [OF gen] e
  consider (row) gp where "gp \<in> set gardenPlants"
      "\<not> isl (forEach_gardenPlant env gardens plants sel gp [])"
      "e \<in> set (projr (forEach_gardenPlant env gardens plants sel gp []))"
    | (win) g where "g \<in> set gardens" "e \<in> set (forEach_garden env y plants schedules sel g [])"
    by auto
  then show ?thesis
  proof cases
    case row
    then obtain rs where "forEach_gardenPlant env gardens plants sel gp [] = Inr rs" "e \<in> set rs"
      by (cases "forEach_gardenPlant env gardens plants sel gp []") auto
    then show ?thesis using row_garden_name assms(2) by blast
  next
    case win
    from forEach_garden_shape [OF win(2)] assms(2) win(1) show ?thesis by auto
  qed
qed

lemma distinct_concat_keyed:
  assumes "distinct (map k xs)"
      and "\<And>x. x \<in> set xs \<Longrightarrow> distinct (f x)"
      and "\<And>x x'. x \<in> set xs \<Longrightarrow> x' \<in> set xs \<Longrightarrow> k x \<noteq> k x' \<Longrightarrow> set (f x) \<inter> set (f x') = {}"
  shows "distinct (concat (map f xs))"
  using assms
proof (induction xs)
  case Nil
  show ?case by simp
next
  case (Cons x xs)
  have d: "distinct (concat (map f xs))"
    using Cons.prems by (intro Cons.IH) auto
  have "set (f x) \<inter> set (f x') = {}" if "x' \<in> set xs" for x'
  proof -
    have "k x \<noteq> k x'" using Cons.prems(1) that by auto
    then show ?thesis using Cons.prems(3) [of x x'] that by simp
  qed
  then have "set (f x) \<inter> set (concat (map f xs)) = {}"
    by auto
  then show ?case
    using d Cons.prems(2) [of x] by simp
qed

lemma start_not_end: "a @ ''-start'' \<noteq> b @ ''-end''"
proof
  assume "a @ ''-start'' = b @ ''-end''"
  then have "last (a @ ''-start'') = last (b @ ''-end'')" by simp
  then show False by simp
qed

lemma window_id_inj:
  assumes "type_string ty @ ''-'' @ s @ r = type_string ty' @ ''-'' @ s' @ r"
  shows "ty = ty' \<and> s = s'"
  using assms by (cases ty; cases ty') simp_all

lemma window_id_role:
  "type_string ty @ ''-'' @ s @ ''-start'' \<noteq> type_string ty' @ ''-'' @ s' @ ''-end''"
proof
  assume "type_string ty @ ''-'' @ s @ ''-start'' = type_string ty' @ ''-'' @ s' @ ''-end''"
  then have "(type_string ty @ ''-'' @ s) @ ''-start'' = (type_string ty' @ ''-'' @ s') @ ''-end''"
    by simp
  then show False using start_not_end by blast
qed

lemma windowIds_iff:
  "i \<in> windowIds s \<longleftrightarrow>
     (\<exists>ty r. i = type_string ty @ ''-'' @ s_id s @ r
        \<and> (ty = SowIndoor \<or> ty = SowOutdoor \<or> ty = Transplant)
        \<and> (r = ''-start'' \<or> r = ''-end''))"
  unfolding windowIds_def by (auto simp del: append.simps type_string.simps)

lemma addScheduleEvent_ids:
  "distinct (map e_id (addScheduleEvent env y plant garden schedule a b ty ti []))
   \<and> set (map e_id (addScheduleEvent env y plant garden schedule a b ty ti []))
       \<subseteq> {type_string ty @ ''-'' @ s_id schedule @ ''-start'',
           type_string ty @ ''-'' @ s_id schedule @ ''-end''}"
proof -
  have ids: "e_id (startEvent ty ti schedule plant garden i)
               = type_string ty @ ''-'' @ s_id schedule @ ''-start''"
            "e_id (endEvent ty ti schedule plant garden j)
               = type_string ty @ ''-'' @ s_id schedule @ ''-end''" for i j
    by (simp_all add: startEvent_def endEvent_def)
  show ?thesis
    using addScheduleEvent_nil_cases [of env y plant garden schedule a b ty ti]
      window_id_role [of ty "s_id schedule" ty "s_id schedule"]
    by (auto simp: ids simp del: append.simps)
qed

lemma windowIds_disjoint:
  assumes "s_id s \<noteq> s_id s'"
  shows "windowIds s \<inter> windowIds s' = {}"
proof (rule ccontr)
  assume "windowIds s \<inter> windowIds s' \<noteq> {}"
  then obtain i where "i \<in> windowIds s" "i \<in> windowIds s'" by blast
  then obtain ty r ty' r' where
    i: "i = type_string ty @ ''-'' @ s_id s @ r" "i = type_string ty' @ ''-'' @ s_id s' @ r'"
    and r: "r = ''-start'' \<or> r = ''-end''" "r' = ''-start'' \<or> r' = ''-end''"
    unfolding windowIds_iff by blast
  have "r = r'"
    using i r window_id_role [of ty "s_id s" ty' "s_id s'"]
      window_id_role [of ty' "s_id s'" ty "s_id s"]
    by auto
  then have "s_id s = s_id s'"
    using i window_id_inj [of ty "s_id s" r ty' "s_id s'"] by simp
  then show False using assms by simp
qed

lemma windowIds_not_row:
  "''planted-'' @ a \<notin> windowIds s \<and> ''harvest-'' @ a \<notin> windowIds s"
  by (auto simp: windowIds_iff)

lemma forEach_schedule_ids:
  "distinct (map e_id (forEach_schedule env y plants garden s []))
   \<and> set (map e_id (forEach_schedule env y plants garden s [])) \<subseteq> windowIds s
   \<and> (forEach_schedule env y plants garden s [] \<noteq> [] \<longrightarrow> s_growZone s = g_growZone garden)"
proof (cases "s_growZone s = g_growZone garden")
  case False
  then have "forEach_schedule env y plants garden s [] = []"
    by (simp add: forEach_schedule_eq [of env y plants garden s "[]"])
  then show ?thesis by simp
next
  case zone: True
  show ?thesis
  proof (cases "find (\<lambda>p. p_id p = s_plantId s) plants")
    case None
    then have "forEach_schedule env y plants garden s [] = []"
      by (simp add: forEach_schedule_eq [of env y plants garden s "[]"])
    then show ?thesis by simp
  next
    case (Some plant)
    let ?add = "addScheduleEvent env y plant garden s"
    let ?A1 = "map e_id (?add (s_sowIndoorStart s) (s_sowIndoorEnd s)
               SowIndoor ''Start Seeds Indoor'' [])"
    let ?A2 = "map e_id (?add (s_sowOutdoorStart s) (s_sowOutdoorEnd s)
               SowOutdoor ''Direct Sow'' [])"
    let ?A3 = "map e_id (?add (s_transplantStart s) (s_transplantEnd s)
               Transplant ''Transplant'' [])"
    have eq: "map e_id (forEach_schedule env y plants garden s []) = ?A1 @ ?A2 @ ?A3"
      using zone Some by (simp add: forEach_schedule_eq [of env y plants garden s "[]"])
    note a1 = addScheduleEvent_ids [of env y plant garden s "s_sowIndoorStart s"
        "s_sowIndoorEnd s" SowIndoor "''Start Seeds Indoor''"]
    note a2 = addScheduleEvent_ids [of env y plant garden s "s_sowOutdoorStart s"
        "s_sowOutdoorEnd s" SowOutdoor "''Direct Sow''"]
    note a3 = addScheduleEvent_ids [of env y plant garden s "s_transplantStart s"
        "s_transplantEnd s" Transplant "''Transplant''"]
    have sub: "set ?A1 \<subseteq> windowIds s" "set ?A2 \<subseteq> windowIds s" "set ?A3 \<subseteq> windowIds s"
    proof -
      have "{type_string ty @ ''-'' @ s_id s @ ''-start'', type_string ty @ ''-'' @ s_id s @ ''-end''}
          \<subseteq> windowIds s"
        if "ty = SowIndoor \<or> ty = SowOutdoor \<or> ty = Transplant" for ty
      proof -
        have "type_string ty @ ''-'' @ s_id s @ ''-start'' \<in> windowIds s"
          unfolding windowIds_iff using that by blast
        moreover have "type_string ty @ ''-'' @ s_id s @ ''-end'' \<in> windowIds s"
          unfolding windowIds_iff using that by blast
        ultimately show ?thesis by blast
      qed
      then show "set ?A1 \<subseteq> windowIds s" "set ?A2 \<subseteq> windowIds s" "set ?A3 \<subseteq> windowIds s"
        using a1 a2 a3 by blast+
    qed
    have d12: "set ?A1 \<inter> set ?A2 = {}"
    proof (rule ccontr)
      assume "set ?A1 \<inter> set ?A2 \<noteq> {}"
      then obtain i where "i \<in> set ?A1" "i \<in> set ?A2" by blast
      then have "i \<in> {''sow-indoor-'' @ s_id s @ ''-start'', ''sow-indoor-'' @ s_id s @ ''-end''}"
        "i \<in> {''sow-outdoor-'' @ s_id s @ ''-start'', ''sow-outdoor-'' @ s_id s @ ''-end''}"
        using a1 a2 by auto
      then show False by auto
    qed
    have d13: "set ?A1 \<inter> set ?A3 = {}"
    proof (rule ccontr)
      assume "set ?A1 \<inter> set ?A3 \<noteq> {}"
      then obtain i where "i \<in> set ?A1" "i \<in> set ?A3" by blast
      then have "i \<in> {''sow-indoor-'' @ s_id s @ ''-start'', ''sow-indoor-'' @ s_id s @ ''-end''}"
        "i \<in> {''transplant-'' @ s_id s @ ''-start'', ''transplant-'' @ s_id s @ ''-end''}"
        using a1 a3 by auto
      then show False by auto
    qed
    have d23: "set ?A2 \<inter> set ?A3 = {}"
    proof (rule ccontr)
      assume "set ?A2 \<inter> set ?A3 \<noteq> {}"
      then obtain i where "i \<in> set ?A2" "i \<in> set ?A3" by blast
      then have "i \<in> {''sow-outdoor-'' @ s_id s @ ''-start'', ''sow-outdoor-'' @ s_id s @ ''-end''}"
        "i \<in> {''transplant-'' @ s_id s @ ''-start'', ''transplant-'' @ s_id s @ ''-end''}"
        using a2 a3 by auto
      then show False by auto
    qed
    have "distinct (?A1 @ ?A2 @ ?A3)"
      using a1 a2 a3 d12 d13 d23 by auto
    moreover have "set (?A1 @ ?A2 @ ?A3) \<subseteq> windowIds s"
      using sub by simp
    ultimately show ?thesis
      unfolding eq using zone by simp
  qed
qed

lemma concat_map_filter:
  assumes "\<And>x. \<not> P x \<Longrightarrow> f x = []"
  shows "concat (map f xs) = concat (map f (filter P xs))"
  using assms by (induction xs) auto

lemma distinct_map_eq:
  assumes "distinct (map k xs)" "x \<in> set xs" "x' \<in> set xs" "k x = k x'"
  shows "x = x'"
  using assms by (meson distinct_map inj_on_def)

lemma forEach_garden_ids:
  assumes s_ids: "distinct (map s_id schedules)"
  shows "distinct (map e_id (forEach_garden env y plants schedules sel g []))
   \<and> set (map e_id (forEach_garden env y plants schedules sel g []))
       \<subseteq> (\<Union>s \<in> {s \<in> set schedules. s_growZone s = g_growZone g}. windowIds s)"
proof -
  let ?f = "\<lambda>s. map e_id (forEach_schedule env y plants g s [])"
  have d: "distinct (concat (map ?f schedules))"
  proof (rule distinct_concat_keyed [where k = s_id])
    show "distinct (map s_id schedules)" by (rule s_ids)
    show "distinct (?f s)" for s
      using forEach_schedule_ids [of env y plants g s] by simp
    show "set (?f s) \<inter> set (?f s') = {}" if "s_id s \<noteq> s_id s'" for s s'
      using forEach_schedule_ids [of env y plants g s] forEach_schedule_ids [of env y plants g s']
        windowIds_disjoint [OF that]
      by blast
  qed
  have sub: "set (concat (map ?f schedules))
      \<subseteq> (\<Union>s \<in> {s \<in> set schedules. s_growZone s = g_growZone g}. windowIds s)"
  proof
    fix i assume "i \<in> set (concat (map ?f schedules))"
    then obtain s where s: "s \<in> set schedules" "i \<in> set (?f s)" by auto
    then have "forEach_schedule env y plants g s [] \<noteq> []" by auto
    then have "s_growZone s = g_growZone g" "i \<in> windowIds s"
      using forEach_schedule_ids [of env y plants g s] s(2) by auto
    then show "i \<in> (\<Union>s \<in> {s \<in> set schedules. s_growZone s = g_growZone g}. windowIds s)"
      using s(1) by blast
  qed
  show ?thesis
  proof (cases "sel = ''all'' \<or> sel = g_id g")
    case True
    then have eq: "map e_id (forEach_garden env y plants schedules sel g [])
        = concat (map ?f schedules)"
      by (simp add: forEach_garden_nil map_concat comp_def)
    show ?thesis
      unfolding eq by (intro conjI) (rule d, rule sub)
  next
    case False
    then have "forEach_garden env y plants schedules sel g [] = []"
      by (simp add: forEach_garden_nil)
    then show ?thesis by simp
  qed
qed

lemma forEach_gardenPlant_nil_cases:
  "isl (forEach_gardenPlant env gardens plants sel gp [])
   \<or> forEach_gardenPlant env gardens plants sel gp [] = Inr []
   \<or> (\<exists>garden plant. forEach_gardenPlant env gardens plants sel gp []
          = Inr [plantedEvent gp plant garden])
   \<or> (\<exists>garden plant iso. forEach_gardenPlant env gardens plants sel gp []
          = Inr [plantedEvent gp plant garden, harvestEvent gp plant garden iso])"
  by (auto simp: forEach_gardenPlant_def Let_def split: option.split sum.split)

lemma forEach_gardenPlant_ids:
  assumes "\<not> isl (forEach_gardenPlant env gardens plants sel gp [])"
  shows "distinct (map e_id (projr (forEach_gardenPlant env gardens plants sel gp [])))
   \<and> set (map e_id (projr (forEach_gardenPlant env gardens plants sel gp [])))
       \<subseteq> {''planted-'' @ gp_id gp, ''harvest-'' @ gp_id gp}"
proof -
  have ids: "e_id (plantedEvent gp plant garden) = ''planted-'' @ gp_id gp"
            "e_id (harvestEvent gp plant garden iso) = ''harvest-'' @ gp_id gp"
    for plant garden iso
    by (simp_all add: plantedEvent_def harvestEvent_def)
  show ?thesis
    using assms forEach_gardenPlant_nil_cases [of env gardens plants sel gp]
    by (auto simp: ids)
qed

lemma forEach_gardenPlant_raises:
  "isl (forEach_gardenPlant env gardens plants sel gp [])
   \<longleftrightarrow> (\<exists>garden plant n.
          find (\<lambda>g. g_id g = gp_gardenId gp) gardens = Some garden
        \<and> find (\<lambda>p. p_id p = gp_plantId gp) plants = Some plant
        \<and> (sel = ''all'' \<or> sel = g_id garden)
        \<and> p_daysToMaturity plant = Some n \<and> n \<noteq> 0
        \<and> setDate env (Date_of_string env (gp_plantedDate gp))
              (map_option (\<lambda>d. d + n) (getDate env (Date_of_string env (gp_plantedDate gp))))
            = None)"
  by (auto simp: forEach_gardenPlant_def Let_def toISOString_def
           split: option.splits sum.splits)

lemma ex_result:
  "generateEvents utc_env [ex_garden] [ex_plant] [ex_schedule] [ex_gardenPlant] ''all'' 2025
   = Inr [plantedEvent ex_gardenPlant ex_plant ex_garden,
          harvestEvent ex_gardenPlant ex_plant ex_garden ''2024-04-30T00:00:00.000Z'',
          startEvent SowIndoor ''Start Seeds Indoor'' ex_schedule ex_plant ex_garden
            ''2025-03-15T00:00:00.000Z'',
          endEvent SowIndoor ''Start Seeds Indoor'' ex_schedule ex_plant ex_garden
            ''2025-04-01T00:00:00.000Z'']"
  by code_simp


subsection \<open>Exceptions\<close>

text \<open>
  C1. The derivation is claimed never to raise, also for an unparseable
  \<^verbatim>\<open>plantedDate\<close>. The harvest projection calls \<^verbatim>\<open>toISOString\<close> on the invalid
  date outside any \<^verbatim>\<open>try\<close>: for a planting of a plant with a maturity whose
  \<^verbatim>\<open>plantedDate\<close> is not a date, the RangeError leaves \<^verbatim>\<open>generateEvents\<close>.
\<close>

theorem generateEvents_raises_on_unparseable_plantedDate:
  "generateEvents utc_env [ex_garden] [ex_plant] []
     [ex_gardenPlant \<lparr> gp_plantedDate := ''not a date'' \<rparr>] ''all'' 2025
   = Inl RangeError"
  by code_simp

text \<open>
  This is the only exception: \<^verbatim>\<open>generateEvents\<close> raises exactly when some planting
  that resolves and passes the filter has a non-zero maturity and a harvest date that is
  invalid, because \<^verbatim>\<open>plantedDate\<close> is no date or the harvest date is out of range.
\<close>

theorem generateEvents_raises_iff:
  "generateEvents env gardens plants schedules gardenPlants sel y = Inl RangeError
   \<longleftrightarrow> (\<exists>gp \<in> set gardenPlants. \<exists>garden plant n.
          find (\<lambda>g. g_id g = gp_gardenId gp) gardens = Some garden
        \<and> find (\<lambda>p. p_id p = gp_plantId gp) plants = Some plant
        \<and> (sel = ''all'' \<or> sel = g_id garden)
        \<and> p_daysToMaturity plant = Some n \<and> n \<noteq> 0
        \<and> setDate env (Date_of_string env (gp_plantedDate gp))
              (map_option (\<lambda>d. d + n) (getDate env (Date_of_string env (gp_plantedDate gp))))
            = None)"
  unfolding generateEvents_eq
  by (simp add: forEach_gardenPlant_raises)

subsection \<open>Event ids\<close>

text \<open>
  C2. The ids of one result are claimed to be pairwise distinct, also for two gardens of
  one grow zone under the filter \<^verbatim>\<open>"all"\<close>. The id of a window event is built from the
  type and the schedule id only, so the two gardens of zone 6 below yield every id twice.
\<close>

theorem event_ids_collide_across_gardens:
  "map_sum id (map e_id)
     (generateEvents utc_env [ex_garden, ex_garden_front] [ex_plant] [ex_schedule] [] ''all'' 2025)
   = Inr [''sow-indoor-s1-start'', ''sow-indoor-s1-end'',
          ''sow-indoor-s1-start'', ''sow-indoor-s1-end'']"
  by code_simp

text \<open>
  The ids of a result are pairwise distinct when the plantings have distinct ids, the
  schedules have distinct ids, and no two gardens that pass the filter share a grow zone.
\<close>

theorem event_ids_distinct_when_zones_differ:
  assumes gp_ids: "distinct (map gp_id gardenPlants)"
      and s_ids: "distinct (map s_id schedules)"
      and zones: "distinct (map g_growZone
                     (filter (\<lambda>g. sel = ''all'' \<or> sel = g_id g) gardens))"
      and gen: "generateEvents env gardens plants schedules gardenPlants sel y = Inr evs"
  shows "distinct (map e_id evs)"
proof -
  let ?R = "\<lambda>gp. map e_id (projr (forEach_gardenPlant env gardens plants sel gp []))"
  let ?G = "\<lambda>g. map e_id (forEach_garden env y plants schedules sel g [])"
  let ?P = "\<lambda>g. sel = ''all'' \<or> sel = g_id g"
  have evs: "map e_id evs = concat (map ?R gardenPlants) @ concat (map ?G gardens)"
    using gen unfolding generateEvents_eq
    by (auto simp: map_concat comp_def split: if_splits)
  have ok: "\<not> isl (forEach_gardenPlant env gardens plants sel gp [])"
    if "gp \<in> set gardenPlants" for gp
    using generateEvents_mem(2) [OF gen] that by blast
  have rows: "distinct (concat (map ?R gardenPlants))"
  proof (rule distinct_concat_keyed [where k = gp_id])
    show "distinct (map gp_id gardenPlants)" by (rule gp_ids)
    show "distinct (?R gp)" if "gp \<in> set gardenPlants" for gp
      using forEach_gardenPlant_ids [OF ok [OF that]] by simp
    show "set (?R gp) \<inter> set (?R gp') = {}"
      if "gp \<in> set gardenPlants" "gp' \<in> set gardenPlants" "gp_id gp \<noteq> gp_id gp'"
      for gp gp'
    proof -
      have "set (?R gp) \<inter> set (?R gp')
          \<subseteq> {''planted-'' @ gp_id gp, ''harvest-'' @ gp_id gp}
            \<inter> {''planted-'' @ gp_id gp', ''harvest-'' @ gp_id gp'}"
        using forEach_gardenPlant_ids [OF ok [OF that(1)]]
          forEach_gardenPlant_ids [OF ok [OF that(2)]]
        by blast
      moreover have "{''planted-'' @ gp_id gp, ''harvest-'' @ gp_id gp}
            \<inter> {''planted-'' @ gp_id gp', ''harvest-'' @ gp_id gp'} = {}"
        using that(3) by simp
      ultimately show ?thesis by blast
    qed
  qed
  have filt: "concat (map ?G gardens) = concat (map ?G (filter ?P gardens))"
    by (rule concat_map_filter) (simp add: forEach_garden_nil)
  have wins: "distinct (concat (map ?G (filter ?P gardens)))"
  proof (rule distinct_concat_keyed [where k = g_growZone])
    show "distinct (map g_growZone (filter ?P gardens))" by (rule zones)
    show "distinct (?G g)" for g
      using forEach_garden_ids [OF s_ids, of env y plants sel g] by simp
    show "set (?G g) \<inter> set (?G g') = {}" if z: "g_growZone g \<noteq> g_growZone g'" for g g'
    proof (rule ccontr)
      assume "set (?G g) \<inter> set (?G g') \<noteq> {}"
      then obtain i where "i \<in> set (?G g)" "i \<in> set (?G g')" by blast
      then obtain s s' where
        s: "s \<in> set schedules" "s_growZone s = g_growZone g" "i \<in> windowIds s"
        and s': "s' \<in> set schedules" "s_growZone s' = g_growZone g'" "i \<in> windowIds s'"
        using forEach_garden_ids [OF s_ids, of env y plants sel g]
          forEach_garden_ids [OF s_ids, of env y plants sel g']
        by blast
      have "s_id s = s_id s'"
        using s(3) s'(3) windowIds_disjoint [of s s'] by blast
      then have "s = s'"
        using distinct_map_eq [OF s_ids s(1) s'(1)] by simp
      then show False using s(2) s'(2) z by simp
    qed
  qed
  have cross: "set (concat (map ?R gardenPlants)) \<inter> set (concat (map ?G gardens)) = {}"
  proof (rule ccontr)
    assume "set (concat (map ?R gardenPlants)) \<inter> set (concat (map ?G gardens)) \<noteq> {}"
    then obtain i gp g where "gp \<in> set gardenPlants" "i \<in> set (?R gp)" "i \<in> set (?G g)"
      by auto
    then obtain s where "i \<in> {''planted-'' @ gp_id gp, ''harvest-'' @ gp_id gp}"
      "i \<in> windowIds s"
      using forEach_gardenPlant_ids [OF ok, of gp]
        forEach_garden_ids [OF s_ids, of env y plants sel g]
      by blast
    then show False using windowIds_not_row [of "gp_id gp" s] by auto
  qed
  show ?thesis
    unfolding evs using rows wins cross by (simp add: filt)
qed

text \<open>At the example rows, with one garden.\<close>

theorem event_ids_distinct_when_zones_differ_witness:
  "distinct (map gp_id [ex_gardenPlant]) \<and> distinct (map s_id [ex_schedule])
   \<and> distinct (map g_growZone (filter (\<lambda>g. ''all'' = ''all'' \<or> ''all'' = g_id g) [ex_garden]))
   \<and> distinct (map e_id
        [plantedEvent ex_gardenPlant ex_plant ex_garden,
         harvestEvent ex_gardenPlant ex_plant ex_garden ''2024-04-30T00:00:00.000Z'',
         startEvent SowIndoor ''Start Seeds Indoor'' ex_schedule ex_plant ex_garden
           ''2025-03-15T00:00:00.000Z'',
         endEvent SowIndoor ''Start Seeds Indoor'' ex_schedule ex_plant ex_garden
           ''2025-04-01T00:00:00.000Z''])"
proof -
  have a: "distinct (map gp_id [ex_gardenPlant])" "distinct (map s_id [ex_schedule])"
    "distinct (map g_growZone (filter (\<lambda>g. ''all'' = ''all'' \<or> ''all'' = g_id g) [ex_garden]))"
    by simp_all
  show ?thesis
    using a event_ids_distinct_when_zones_differ [OF a ex_result] by blast
qed

subsection \<open>Window pairs\<close>

text \<open>
  C3. A pair with a label that fails to parse is claimed to emit no event at all. Here
  the end label \<^verbatim>\<open>"Apr"\<close> has a month and no day: \<^verbatim>\<open>parseDate\<close> returns an invalid
  \<^verbatim>\<open>Date\<close>, which is truthy, the start event is pushed, and only then does the end
  date's \<^verbatim>\<open>toISOString\<close> raise into the \<^verbatim>\<open>catch\<close>. The start event stays alone.
\<close>

theorem window_pair_emitted_partially:
  "generateEvents utc_env [ex_garden] [ex_plant]
     [ex_schedule \<lparr> s_sowIndoorEnd := Some ''Apr'' \<rparr>] [] ''all'' 2025
   = Inr [startEvent SowIndoor ''Start Seeds Indoor''
            (ex_schedule \<lparr> s_sowIndoorEnd := Some ''Apr'' \<rparr>) ex_plant ex_garden
            ''2025-03-15T00:00:00.000Z'']"
  by code_simp

text \<open>
  When the month token of either label of a pair matches no month name, the pair
  leaves \<^verbatim>\<open>newEvents\<close> as it was.
\<close>

theorem unrecognised_month_skips_pair:
  assumes "monthIndexOf (fst (monthDay sd)) = - 1 \<or> monthIndexOf (fst (monthDay ed)) = - 1"
  shows "addScheduleEvent env currentYear plant garden schedule (Some sd) (Some ed) type title
           newEvents
         = newEvents"
proof -
  have "parseDate env currentYear sd = None \<or> parseDate env currentYear ed = None"
    using assms
    by (cases "monthDay sd"; cases "monthDay ed") (auto simp: parseDate_def Let_def)
  then show ?thesis
    by (auto simp: addScheduleEvent_def split: option.split)
qed

text \<open>
  At the schedule of the specification: \<^verbatim>\<open>transplantStart = "Smarch 5"\<close> drops the
  transplant pair, and the sow-indoor pair of the same schedule is emitted as before.
\<close>

theorem unrecognised_month_skips_pair_witness:
  "monthIndexOf (fst (monthDay ''Smarch 5'')) = - 1
   \<and> addScheduleEvent utc_env 2025 ex_plant ex_garden ex_schedule (Some ''Smarch 5'')
        (Some ''May 20'') Transplant ''Transplant'' [] = []
   \<and> generateEvents utc_env [ex_garden] [ex_plant]
        [ex_schedule \<lparr> s_transplantStart := Some ''Smarch 5'',
                       s_transplantEnd := Some ''May 20'' \<rparr>] [] ''all'' 2025
     = Inr [startEvent SowIndoor ''Start Seeds Indoor'' ex_schedule ex_plant ex_garden
              ''2025-03-15T00:00:00.000Z'',
            endEvent SowIndoor ''Start Seeds Indoor'' ex_schedule ex_plant ex_garden
              ''2025-04-01T00:00:00.000Z'']"
proof -
  have m: "monthIndexOf (fst (monthDay ''Smarch 5'')) = - 1"
    by code_simp
  have a: "addScheduleEvent utc_env 2025 ex_plant ex_garden ex_schedule (Some ''Smarch 5'')
        (Some ''May 20'') Transplant ''Transplant'' [] = []"
    using m by (intro unrecognised_month_skips_pair) simp
  have b: "generateEvents utc_env [ex_garden] [ex_plant]
        [ex_schedule \<lparr> s_transplantStart := Some ''Smarch 5'',
                       s_transplantEnd := Some ''May 20'' \<rparr>] [] ''all'' 2025
     = Inr [startEvent SowIndoor ''Start Seeds Indoor'' ex_schedule ex_plant ex_garden
              ''2025-03-15T00:00:00.000Z'',
            endEvent SowIndoor ''Start Seeds Indoor'' ex_schedule ex_plant ex_garden
              ''2025-04-01T00:00:00.000Z'']"
    by code_simp
  show ?thesis
    using m a b by blast
qed



subsection \<open>Plantings and the harvest projection\<close>






text \<open>
  C7. Every harvest event of a result has the id \<^verbatim>\<open>harvest-{g}\<close> of a planting
  \<open>g\<close>; the pass over the gardens and schedules produces no harvest event; and the
  fields \<^verbatim>\<open>harvestStart\<close> and \<^verbatim>\<open>harvestEnd\<close> of the schedules do not influence the
  result.
\<close>

theorem harvest_events_only_from_plantings:
  assumes gen: "generateEvents env gardens plants schedules gardenPlants sel y = Inr evs"
  shows "(\<forall>e \<in> set evs. e_type e = Harvest \<longrightarrow>
            (\<exists>gp \<in> set gardenPlants. e_id e = ''harvest-'' @ gp_id gp))
       \<and> (\<forall>e \<in> set (forEach (forEach_garden env y plants schedules sel) gardens []).
            e_type e \<noteq> Harvest)
       \<and> generateEvents env gardens plants
            (map (\<lambda>s. s\<lparr>s_harvestStart := hs s, s_harvestEnd := he s\<rparr>) schedules)
            gardenPlants sel y
          = generateEvents env gardens plants schedules gardenPlants sel y"
proof (intro conjI ballI impI)
  fix e assume "e \<in> set evs" "e_type e = Harvest"
  then show "\<exists>gp \<in> set gardenPlants. e_id e = ''harvest-'' @ gp_id gp"
    using harvest_event_has_planting [OF gen] by blast
next
  fix e assume "e \<in> set (forEach (forEach_garden env y plants schedules sel) gardens [])"
  then have "e \<in> set (concat (map (\<lambda>g. forEach_garden env y plants schedules sel g []) gardens))"
    using forEach_concat [of "forEach_garden env y plants schedules sel" gardens "[]",
        OF forEach_garden_acc]
    by simp
  then obtain g where "e \<in> set (forEach_garden env y plants schedules sel g [])"
    by auto
  from forEach_garden_shape [OF this] show "e_type e \<noteq> Harvest"
    by auto
next
  show "generateEvents env gardens plants
            (map (\<lambda>s. s\<lparr>s_harvestStart := hs s, s_harvestEnd := he s\<rparr>) schedules)
            gardenPlants sel y
          = generateEvents env gardens plants schedules gardenPlants sel y"
    by (rule generateEvents_harvest_fields)
qed

text \<open>
  C7, at the example rows: the one harvest event is that of planting \<^verbatim>\<open>gp1\<close>, and
  erasing the harvest window of the schedule changes nothing.
\<close>

theorem harvest_events_only_from_plantings_witness:
  "generateEvents utc_env [ex_garden] [ex_plant] [ex_schedule] [ex_gardenPlant] ''all'' 2025
   = Inr [plantedEvent ex_gardenPlant ex_plant ex_garden,
          harvestEvent ex_gardenPlant ex_plant ex_garden ''2024-04-30T00:00:00.000Z'',
          startEvent SowIndoor ''Start Seeds Indoor'' ex_schedule ex_plant ex_garden
            ''2025-03-15T00:00:00.000Z'',
          endEvent SowIndoor ''Start Seeds Indoor'' ex_schedule ex_plant ex_garden
            ''2025-04-01T00:00:00.000Z'']
   \<and> e_type (harvestEvent ex_gardenPlant ex_plant ex_garden ''2024-04-30T00:00:00.000Z'')
       = Harvest
   \<and> (\<exists>gp \<in> set [ex_gardenPlant].
        e_id (harvestEvent ex_gardenPlant ex_plant ex_garden ''2024-04-30T00:00:00.000Z'')
        = ''harvest-'' @ gp_id gp)
   \<and> s_harvestStart ex_schedule = Some ''Jul 1''
   \<and> generateEvents utc_env [ex_garden] [ex_plant]
        (map (\<lambda>s. s\<lparr>s_harvestStart := None, s_harvestEnd := None\<rparr>) [ex_schedule])
        [ex_gardenPlant] ''all'' 2025
       = generateEvents utc_env [ex_garden] [ex_plant] [ex_schedule] [ex_gardenPlant] ''all'' 2025"
proof -
  let ?h = "harvestEvent ex_gardenPlant ex_plant ex_garden ''2024-04-30T00:00:00.000Z''"
  note gen = ex_result
  note inst = harvest_events_only_from_plantings [OF gen, of "\<lambda>s. None" "\<lambda>s. None"]
  have ty: "e_type ?h = Harvest"
    by (simp add: harvestEvent_def)
  have mem: "?h \<in> set [plantedEvent ex_gardenPlant ex_plant ex_garden, ?h,
          startEvent SowIndoor ''Start Seeds Indoor'' ex_schedule ex_plant ex_garden
            ''2025-03-15T00:00:00.000Z'',
          endEvent SowIndoor ''Start Seeds Indoor'' ex_schedule ex_plant ex_garden
            ''2025-04-01T00:00:00.000Z'']"
    by simp
  have a: "\<exists>gp \<in> set [ex_gardenPlant]. e_id ?h = ''harvest-'' @ gp_id gp"
    using inst mem ty by blast
  have b: "generateEvents utc_env [ex_garden] [ex_plant]
        (map (\<lambda>s. s\<lparr>s_harvestStart := None, s_harvestEnd := None\<rparr>) [ex_schedule])
        [ex_gardenPlant] ''all'' 2025
       = generateEvents utc_env [ex_garden] [ex_plant] [ex_schedule] [ex_gardenPlant] ''all'' 2025"
    using inst by blast
  have c: "s_harvestStart ex_schedule = Some ''Jul 1''"
    by (simp add: ex_schedule_def)
  show ?thesis
    using gen ty a b c by blast
qed

subsection \<open>The garden filter\<close>

text \<open>
  C8, as stated, fails in its second half: two gardens with different ids, the same
  name and the same grow zone receive the same window events, so the results for the two
  filters share every event.
\<close>

theorem filter_results_share_events:
  "generateEvents utc_env [ex_garden, ex_garden_twin] [ex_plant] [ex_schedule] [] ''g1'' 2025
   = Inr [startEvent SowIndoor ''Start Seeds Indoor'' ex_schedule ex_plant ex_garden
            ''2025-03-15T00:00:00.000Z'',
          endEvent SowIndoor ''Start Seeds Indoor'' ex_schedule ex_plant ex_garden
            ''2025-04-01T00:00:00.000Z'']
   \<and> generateEvents utc_env [ex_garden, ex_garden_twin] [ex_plant] [ex_schedule] [] ''g2'' 2025
   = Inr [startEvent SowIndoor ''Start Seeds Indoor'' ex_schedule ex_plant ex_garden
            ''2025-03-15T00:00:00.000Z'',
          endEvent SowIndoor ''Start Seeds Indoor'' ex_schedule ex_plant ex_garden
            ''2025-04-01T00:00:00.000Z'']
   \<and> g_id ex_garden = ''g1'' \<and> g_id ex_garden_twin = ''g2'' \<and> ''g1'' \<noteq> ''g2''"
  by code_simp

text \<open>
  C8, amended. When the derivation returns under the filter \<^verbatim>\<open>"all"\<close>, it returns
  under every filter, and the union of the results over the ids of the gardens is the
  result under \<^verbatim>\<open>"all"\<close>. Two filters other than \<^verbatim>\<open>"all"\<close> whose gardens have
  different names share no event.
\<close>

theorem filter_union_and_named_disjointness:
  assumes all: "generateEvents env gardens plants schedules gardenPlants ''all'' y = Inr evs"
  shows "(\<Union>g \<in> g_id ` set gardens.
            events_of (generateEvents env gardens plants schedules gardenPlants g y)) = set evs
     \<and> (\<forall>g. \<not> isl (generateEvents env gardens plants schedules gardenPlants g y))
     \<and> (g1 \<noteq> ''all'' \<and> g2 \<noteq> ''all''
          \<and> (\<forall>a \<in> set gardens. \<forall>b \<in> set gardens.
                g_id a = g1 \<and> g_id b = g2 \<longrightarrow> g_name a \<noteq> g_name b)
        \<longrightarrow> events_of (generateEvents env gardens plants schedules gardenPlants g1 y)
            \<inter> events_of (generateEvents env gardens plants schedules gardenPlants g2 y) = {})"
proof (intro conjI)
  let ?R = "\<lambda>sel gp. forEach_gardenPlant env gardens plants sel gp []"
  let ?G = "\<lambda>sel g. forEach_garden env y plants schedules sel g []"
  let ?gen = "\<lambda>sel. generateEvents env gardens plants schedules gardenPlants sel y"
  note mem_all = generateEvents_mem [OF all]
  have ok: "\<not> isl (?R sel gp)" if "gp \<in> set gardenPlants" for sel gp
    using mem_all(2) that row_sel_cases [of env gardens plants sel gp] by auto
  have gen: "?gen sel = Inr (concat (map (\<lambda>gp. projr (?R sel gp)) gardenPlants)
                              @ concat (map (?G sel) gardens))" for sel
    using ok by (simp add: generateEvents_eq)
  show "\<forall>g. \<not> isl (?gen g)"
    by (simp add: gen)
  have ev: "events_of (?gen sel)
      = (\<Union>gp \<in> set gardenPlants. set (projr (?R sel gp))) \<union> (\<Union>g \<in> set gardens. set (?G sel g))" for sel
    by (simp add: gen events_of_def)
  have evs: "set evs = events_of (?gen ''all'')"
    by (simp add: all events_of_def)
  show "(\<Union>g \<in> g_id ` set gardens. events_of (?gen g)) = set evs"
  proof (intro equalityI subsetI)
    fix e assume "e \<in> (\<Union>g \<in> g_id ` set gardens. events_of (?gen g))"
    then obtain sel where e: "e \<in> events_of (?gen sel)" by blast
    have "(\<exists>gp \<in> set gardenPlants. e \<in> set (projr (?R sel gp)))
          \<or> (\<exists>g \<in> set gardens. e \<in> set (?G sel g))"
      using e by (simp only: ev Un_iff UN_iff)
    then consider (row) gp where "gp \<in> set gardenPlants" "e \<in> set (projr (?R sel gp))"
      | (win) g where "g \<in> set gardens" "e \<in> set (?G sel g)"
      by blast
    then show "e \<in> set evs"
    proof cases
      case row
      then have "e \<in> set (projr (?R ''all'' gp))"
        using row_sel_mem by blast
      then have "(\<exists>gp \<in> set gardenPlants. e \<in> set (projr (?R ''all'' gp)))
          \<or> (\<exists>g \<in> set gardens. e \<in> set (?G ''all'' g))"
        using row(1) by blast
      then show ?thesis by (simp only: evs ev Un_iff UN_iff)
    next
      case win
      then have "e \<in> set (?G ''all'' g)"
        using garden_sel_mem by blast
      then have "(\<exists>gp \<in> set gardenPlants. e \<in> set (projr (?R ''all'' gp)))
          \<or> (\<exists>g \<in> set gardens. e \<in> set (?G ''all'' g))"
        using win(1) by blast
      then show ?thesis by (simp only: evs ev Un_iff UN_iff)
    qed
  next
    fix e assume "e \<in> set evs"
    then have "(\<exists>gp \<in> set gardenPlants. e \<in> set (projr (?R ''all'' gp)))
          \<or> (\<exists>g \<in> set gardens. e \<in> set (?G ''all'' g))"
      by (simp only: evs ev Un_iff UN_iff)
    then consider (row) gp where "gp \<in> set gardenPlants" "e \<in> set (projr (?R ''all'' gp))"
      | (win) g where "g \<in> set gardens" "e \<in> set (?G ''all'' g)"
      by blast
    then show "e \<in> (\<Union>g \<in> g_id ` set gardens. events_of (?gen g))"
    proof cases
      case row
      from ok [OF row(1), of "''all''"] row(2) obtain rs where
        rs: "?R ''all'' gp = Inr rs" "e \<in> set rs"
        by (cases "?R ''all'' gp") auto
      from forEach_gardenPlant_shape [OF rs] obtain garden where
        f: "find (\<lambda>g. g_id g = gp_gardenId gp) gardens = Some garden"
        by blast
      then have in_g: "garden \<in> set gardens" by (simp add: find_SomeD)
      have "e \<in> set (projr (?R (g_id garden) gp))"
        using row(2) row_sel_own [OF f] by simp
      then have "(\<exists>gp \<in> set gardenPlants. e \<in> set (projr (?R (g_id garden) gp)))
          \<or> (\<exists>g \<in> set gardens. e \<in> set (?G (g_id garden) g))"
        using row(1) by blast
      then have "e \<in> events_of (?gen (g_id garden))"
        by (simp only: ev Un_iff UN_iff)
      then show ?thesis using in_g by blast
    next
      case win
      have "?G (g_id g) g = ?G ''all'' g"
        by (rule garden_sel_own)
      then have "e \<in> set (?G (g_id g) g)"
        using win(2) by simp
      then have "(\<exists>gp \<in> set gardenPlants. e \<in> set (projr (?R (g_id g) gp)))
          \<or> (\<exists>g' \<in> set gardens. e \<in> set (?G (g_id g) g'))"
        using win(1) by blast
      then have "e \<in> events_of (?gen (g_id g))"
        by (simp only: ev Un_iff UN_iff)
      then show ?thesis using win(1) by blast
    qed
  qed
  show "g1 \<noteq> ''all'' \<and> g2 \<noteq> ''all''
          \<and> (\<forall>a \<in> set gardens. \<forall>b \<in> set gardens.
                g_id a = g1 \<and> g_id b = g2 \<longrightarrow> g_name a \<noteq> g_name b)
        \<longrightarrow> events_of (?gen g1) \<inter> events_of (?gen g2) = {}"
  proof (intro impI, elim conjE)
    assume n1: "g1 \<noteq> ''all''" and n2: "g2 \<noteq> ''all''"
      and names: "\<forall>a \<in> set gardens. \<forall>b \<in> set gardens.
                g_id a = g1 \<and> g_id b = g2 \<longrightarrow> g_name a \<noteq> g_name b"
    show "events_of (?gen g1) \<inter> events_of (?gen g2) = {}"
    proof (rule ccontr)
      assume "events_of (?gen g1) \<inter> events_of (?gen g2) \<noteq> {}"
      then obtain e where e1: "e \<in> events_of (?gen g1)" and e2: "e \<in> events_of (?gen g2)"
        by blast
      from result_garden_name [OF e1 n1] obtain a where
        a: "a \<in> set gardens" "g_id a = g1" "e_garden e = Some (g_name a)" by blast
      from result_garden_name [OF e2 n2] obtain b where
        b: "b \<in> set gardens" "g_id b = g2" "e_garden e = Some (g_name b)" by blast
      from a(3) b(3) have "g_name a = g_name b" by simp
      moreover from names a(1,2) b(1,2) have "g_name a \<noteq> g_name b" by blast
      ultimately show False by simp
    qed
  qed
qed

text \<open>
  C8 amended, at two gardens of zone 6 with different names.
\<close>

theorem filter_union_and_named_disjointness_witness:
  "\<not> isl (generateEvents utc_env [ex_garden, ex_garden_front] [ex_plant] [ex_schedule]
            [ex_gardenPlant] ''all'' 2025)
   \<and> (\<Union>g \<in> g_id ` set [ex_garden, ex_garden_front].
        events_of (generateEvents utc_env [ex_garden, ex_garden_front] [ex_plant] [ex_schedule]
                     [ex_gardenPlant] g 2025))
     = events_of (generateEvents utc_env [ex_garden, ex_garden_front] [ex_plant] [ex_schedule]
                    [ex_gardenPlant] ''all'' 2025)
   \<and> events_of (generateEvents utc_env [ex_garden, ex_garden_front] [ex_plant] [ex_schedule]
                  [ex_gardenPlant] ''g1'' 2025)
     \<inter> events_of (generateEvents utc_env [ex_garden, ex_garden_front] [ex_plant] [ex_schedule]
                    [ex_gardenPlant] ''g2'' 2025) = {}
   \<and> events_of (generateEvents utc_env [ex_garden, ex_garden_front] [ex_plant] [ex_schedule]
                  [ex_gardenPlant] ''g2'' 2025) \<noteq> {}"
proof -
  let ?gen = "\<lambda>sel. generateEvents utc_env [ex_garden, ex_garden_front] [ex_plant] [ex_schedule]
                     [ex_gardenPlant] sel 2025"
  have ok: "\<not> isl (?gen ''all'')"
    by code_simp
  then obtain evs where all: "?gen ''all'' = Inr evs"
    by (cases "?gen ''all''") auto
  have names: "\<forall>a \<in> set [ex_garden, ex_garden_front]. \<forall>b \<in> set [ex_garden, ex_garden_front].
      g_id a = ''g1'' \<and> g_id b = ''g2'' \<longrightarrow> g_name a \<noteq> g_name b"
    by (simp add: ex_garden_def ex_garden_front_def)
  have ne: "''g1'' \<noteq> ''all''" "''g2'' \<noteq> ''all''"
    by simp_all
  note inst = filter_union_and_named_disjointness [OF all, of "''g1''" "''g2''"]
  have u: "(\<Union>g \<in> g_id ` set [ex_garden, ex_garden_front]. events_of (?gen g))
      = events_of (?gen ''all'')"
    using inst by (simp add: all events_of_def)
  have d: "events_of (?gen ''g1'') \<inter> events_of (?gen ''g2'') = {}"
    using inst names ne by blast
  have n: "events_of (?gen ''g2'') \<noteq> {}"
    by code_simp
  show ?thesis
    using ok u d n by blast
qed

subsection \<open>Dangling references\<close>

text \<open>
  C9. A planting whose garden or plant does not exist appends nothing and raises
  nothing, and the result with it in the list is the result without it; the same holds
  for a schedule whose plant does not exist.
\<close>

theorem orphans_contribute_nothing:
  "(gp_gardenId gp \<notin> g_id ` set gardens \<or> gp_plantId gp \<notin> p_id ` set plants \<longrightarrow>
      forEach_gardenPlant env gardens plants sel gp newEvents = Inr newEvents
      \<and> generateEvents env gardens plants schedules (gps1 @ gp # gps2) sel y
        = generateEvents env gardens plants schedules (gps1 @ gps2) sel y)
   \<and> (s_plantId s \<notin> p_id ` set plants \<longrightarrow>
      forEach_schedule env y plants garden s newEvents = newEvents
      \<and> generateEvents env gardens plants (ss1 @ s # ss2) gardenPlants sel y
        = generateEvents env gardens plants (ss1 @ ss2) gardenPlants sel y)"
proof (intro conjI impI)
  assume o: "gp_gardenId gp \<notin> g_id ` set gardens \<or> gp_plantId gp \<notin> p_id ` set plants"
  show "forEach_gardenPlant env gardens plants sel gp newEvents = Inr newEvents"
    using o by (rule orphan_row)
  have "forEach_gardenPlant env gardens plants sel gp [] = Inr []"
    using o by (rule orphan_row)
  then show "generateEvents env gardens plants schedules (gps1 @ gp # gps2) sel y
        = generateEvents env gardens plants schedules (gps1 @ gps2) sel y"
    by (simp add: generateEvents_eq)
next
  assume o: "s_plantId s \<notin> p_id ` set plants"
  show "forEach_schedule env y plants garden s newEvents = newEvents"
    using o by (rule orphan_schedule)
  have "forEach_schedule env y plants g s [] = []" for g
    using o by (rule orphan_schedule)
  then have "forEach_garden env y plants (ss1 @ s # ss2) sel g []
      = forEach_garden env y plants (ss1 @ ss2) sel g []" for g
    by (simp add: forEach_garden_nil)
  then show "generateEvents env gardens plants (ss1 @ s # ss2) gardenPlants sel y
        = generateEvents env gardens plants (ss1 @ ss2) gardenPlants sel y"
    by (simp add: generateEvents_eq)
qed

text \<open>
  C9, at a planting and a schedule of the missing plant \<^verbatim>\<open>p9\<close>.
\<close>

theorem orphans_contribute_nothing_witness:
  "gp_plantId (ex_gardenPlant \<lparr> gp_id := ''gp9'', gp_plantId := ''p9'' \<rparr>)
      \<notin> p_id ` set [ex_plant]
   \<and> generateEvents utc_env [ex_garden] [ex_plant] [ex_schedule]
       ([] @ ex_gardenPlant \<lparr> gp_id := ''gp9'', gp_plantId := ''p9'' \<rparr> # [ex_gardenPlant])
       ''all'' 2025
     = generateEvents utc_env [ex_garden] [ex_plant] [ex_schedule] ([] @ [ex_gardenPlant])
         ''all'' 2025
   \<and> s_plantId (ex_schedule \<lparr> s_id := ''s9'', s_plantId := ''p9'' \<rparr>) \<notin> p_id ` set [ex_plant]
   \<and> generateEvents utc_env [ex_garden] [ex_plant]
       ([ex_schedule] @ ex_schedule \<lparr> s_id := ''s9'', s_plantId := ''p9'' \<rparr> # [])
       [ex_gardenPlant] ''all'' 2025
     = generateEvents utc_env [ex_garden] [ex_plant] ([ex_schedule] @ []) [ex_gardenPlant]
         ''all'' 2025
   \<and> \<not> isl (generateEvents utc_env [ex_garden] [ex_plant] [ex_schedule] [ex_gardenPlant]
              ''all'' 2025)"
proof -
  let ?gp = "ex_gardenPlant \<lparr> gp_id := ''gp9'', gp_plantId := ''p9'' \<rparr>"
  let ?s = "ex_schedule \<lparr> s_id := ''s9'', s_plantId := ''p9'' \<rparr>"
  have o1: "gp_plantId ?gp \<notin> p_id ` set [ex_plant]"
    by (simp add: ex_plant_def)
  have o2: "s_plantId ?s \<notin> p_id ` set [ex_plant]"
    by (simp add: ex_plant_def)
  note inst = orphans_contribute_nothing [of ?gp "[ex_garden]" "[ex_plant]" utc_env "''all''" "[]" "[ex_schedule]"
      "[]" "[ex_gardenPlant]" 2025 ?s ex_garden "[ex_schedule]" "[]" "[ex_gardenPlant]"]
  have a: "generateEvents utc_env [ex_garden] [ex_plant] [ex_schedule]
       ([] @ ?gp # [ex_gardenPlant]) ''all'' 2025
     = generateEvents utc_env [ex_garden] [ex_plant] [ex_schedule] ([] @ [ex_gardenPlant])
         ''all'' 2025"
    using inst o1 by blast
  have b: "generateEvents utc_env [ex_garden] [ex_plant] ([ex_schedule] @ ?s # [])
       [ex_gardenPlant] ''all'' 2025
     = generateEvents utc_env [ex_garden] [ex_plant] ([ex_schedule] @ []) [ex_gardenPlant]
         ''all'' 2025"
    using inst o2 by blast
  have c: "\<not> isl (generateEvents utc_env [ex_garden] [ex_plant] [ex_schedule] [ex_gardenPlant]
              ''all'' 2025)"
    by code_simp
  show ?thesis
    using o1 o2 a b c by blast
qed

subsection \<open>The month token\<close>



end
